theory Spec2Isabelle
  imports Main "HOL-Library.Sublist"
begin

section \<open>JavaScript strings\<close>

text \<open>
  A JavaScript string is modelled as a \<^typ>\<open>string\<close>: one \<^typ>\<open>char\<close> per code unit, for the
  code units below 256. The white space of \<^verbatim>\<open>\s\<close> and of \<^verbatim>\<open>String.prototype.trim\<close> in
  that range is TAB, LF, VT, FF, CR, SPACE and NBSP; the line terminators, which \<^verbatim>\<open>.\<close> does
  not match, are LF and CR.
\<close>

definition isWhiteSpace :: "char \<Rightarrow> bool" where
  "isWhiteSpace c =
     (c = CHR 0x09 \<or> c = CHR 0x0A \<or> c = CHR 0x0B \<or> c = CHR 0x0C \<or> c = CHR 0x0D \<or>
      c = CHR 0x20 \<or> c = CHR 0xA0)"

definition isLineTerminator :: "char \<Rightarrow> bool" where
  "isLineTerminator c = (c = CHR 0x0A \<or> c = CHR 0x0D)"

definition trim :: "string \<Rightarrow> string" where
  "trim s = rev (dropWhile isWhiteSpace (rev (dropWhile isWhiteSpace s)))"

definition startsWith :: "string \<Rightarrow> string \<Rightarrow> bool" where
  "startsWith s p = prefix p s"

definition endsWith :: "string \<Rightarrow> string \<Rightarrow> bool" where
  "endsWith s p = suffix p s"

text \<open>\<^verbatim>\<open>s.includes(m)\<close>: \<open>m\<close> occurs in \<open>s\<close> as a contiguous substring.\<close>

fun str_includes :: "string \<Rightarrow> string \<Rightarrow> bool" where
  "str_includes [] m = (m = [])"
| "str_includes (c # cs) m = (prefix m (c # cs) \<or> str_includes cs m)"

text \<open>\<^verbatim>\<open>s.slice(1, -1)\<close>: the string without its first and last code unit.\<close>

definition slice_1_m1 :: "string \<Rightarrow> string" where
  "slice_1_m1 s = butlast (tl s)"

text \<open>\<^verbatim>\<open>String(n)\<close> for a non-negative integer, and for an integer.\<close>

definition digit_char :: "nat \<Rightarrow> char" where
  "digit_char d = char_of (48 + d)"

fun show_nat :: "nat \<Rightarrow> string" where
  "show_nat n = (if n < 10 then [digit_char n] else show_nat (n div 10) @ [digit_char (n mod 10)])"

declare show_nat.simps [simp del]

definition show_int :: "int \<Rightarrow> string" where
  "show_int i = (if i < 0 then CHR ''-'' # show_nat (nat (- i)) else show_nat (nat i))"

section \<open>The POSIX flavour of Node's path module\<close>

text \<open>
  \<^verbatim>\<open>path.isAbsolute\<close>, \<^verbatim>\<open>path.dirname\<close>, \<^verbatim>\<open>path.join\<close> and \<^verbatim>\<open>path.resolve\<close> belong to the Node
  runtime, not to the repository. They are modelled on a POSIX host, segment by segment:
  \<^verbatim>\<open>normalizeString\<close> drops empty and \<^verbatim>\<open>.\<close> segments, lets \<^verbatim>\<open>..\<close> remove the segment before it,
  and keeps a leading \<^verbatim>\<open>..\<close> only where the path may climb above its start.
\<close>

fun splitSlash_aux :: "string \<Rightarrow> string \<Rightarrow> string list" where
  "splitSlash_aux cur [] = [rev cur]"
| "splitSlash_aux cur (c # cs) =
     (if c = CHR ''/'' then rev cur # splitSlash_aux [] cs else splitSlash_aux (c # cur) cs)"

definition splitSlash :: "string \<Rightarrow> string list" where
  "splitSlash s = splitSlash_aux [] s"

fun joinSlash :: "string list \<Rightarrow> string" where
  "joinSlash [] = []"
| "joinSlash [s] = s"
| "joinSlash (s # t # ss) = s @ ''/'' @ joinSlash (t # ss)"

fun normSegs :: "bool \<Rightarrow> string list \<Rightarrow> string list \<Rightarrow> string list" where
  "normSegs allowAboveRoot res [] = res"
| "normSegs allowAboveRoot res (seg # segs) =
     (if seg = [] \<or> seg = ''.'' then normSegs allowAboveRoot res segs
      else if seg = ''..'' then
        (if res \<noteq> [] \<and> last res \<noteq> ''..'' then normSegs allowAboveRoot (butlast res) segs
         else if allowAboveRoot then normSegs allowAboveRoot (res @ [''..'']) segs
         else normSegs allowAboveRoot res segs)
      else normSegs allowAboveRoot (res @ [seg]) segs)"

definition normalizeString :: "string \<Rightarrow> bool \<Rightarrow> string" where
  "normalizeString p allowAboveRoot = joinSlash (normSegs allowAboveRoot [] (splitSlash p))"

definition path_isAbsolute :: "string \<Rightarrow> bool" where
  "path_isAbsolute p = (p \<noteq> [] \<and> hd p = CHR ''/'')"

definition path_normalize :: "string \<Rightarrow> string" where
  "path_normalize p =
     (if p = [] then ''.''
      else
        let isAbsolute = (hd p = CHR ''/'');
            trailingSeparator = (last p = CHR ''/'');
            q = normalizeString p (\<not> isAbsolute)
        in if q = [] then (if isAbsolute then ''/'' else if trailingSeparator then ''./'' else ''.'')
           else
             let q' = (if trailingSeparator then q @ ''/'' else q)
             in if isAbsolute then CHR ''/'' # q' else q')"

definition path_join :: "string list \<Rightarrow> string" where
  "path_join args =
     (let parts = filter (\<lambda>a. a \<noteq> []) args
      in if parts = [] then ''.'' else path_normalize (joinSlash parts))"

text \<open>
  \<^verbatim>\<open>path.resolve\<close> walks its arguments from the right, then the process's own working
  directory, until the path collected so far is absolute.
\<close>

fun resolveLoop :: "string list \<Rightarrow> string \<Rightarrow> bool \<Rightarrow> string \<times> bool" where
  "resolveLoop [] resolvedPath resolvedAbsolute = (resolvedPath, resolvedAbsolute)"
| "resolveLoop (p # ps) resolvedPath resolvedAbsolute =
     (if resolvedAbsolute then (resolvedPath, resolvedAbsolute)
      else if p = [] then resolveLoop ps resolvedPath resolvedAbsolute
      else resolveLoop ps (p @ ''/'' @ resolvedPath) (hd p = CHR ''/''))"

definition path_resolve :: "string \<Rightarrow> string list \<Rightarrow> string" where
  "path_resolve processCwd args =
     (case resolveLoop (rev args @ [processCwd]) [] False of
        (resolvedPath, resolvedAbsolute) \<Rightarrow>
          let q = normalizeString resolvedPath (\<not> resolvedAbsolute)
          in if resolvedAbsolute then CHR ''/'' # q
             else if q \<noteq> [] then q else ''.'')"

text \<open>
  \<^verbatim>\<open>path.dirname\<close> scans from the end down to index 1: it skips trailing slashes, then the
  last segment, and cuts at the slash it meets next (\<open>end\<close>).
\<close>

definition path_dirname :: "string \<Rightarrow> string" where
  "path_dirname p =
     (if p = [] then ''.''
      else
        let hasRoot = (hd p = CHR ''/'');
            r1 = dropWhile (\<lambda>c. c = CHR ''/'') (rev (tl p));
            r2 = dropWhile (\<lambda>c. c \<noteq> CHR ''/'') r1
        in if r2 = [] then (if hasRoot then ''/'' else ''.'')
           else if hasRoot \<and> length r2 = 1 then ''//''
           else take (length r2) p)"

section \<open>Errors and promises\<close>

text \<open>
  A thrown \<^verbatim>\<open>Error\<close>, with its message. The quote of the messages is the apostrophe.
\<close>

datatype error = Error (message: string)

definition quoted :: "string \<Rightarrow> string" where
  "quoted s = CHR 0x27 # s @ [CHR 0x27]"

text \<open>
  What becomes of an awaited promise: it is fulfilled with a value, it is rejected with an
  error, or it never settles. It never settles when a listener throws, because the exception
  is then uncaught and ends the Node process; \<open>Unsettled (Some e)\<close> records that exception.
\<close>

datatype 'a settled = Fulfilled 'a | Rejected error | Unsettled "error option"

section \<open>The host of the server\<close>

text \<open>
  What the code reads from the Node process: \<^verbatim>\<open>os.homedir()\<close>, \<^verbatim>\<open>process.cwd()\<close>,
  \<^verbatim>\<open>process.env\<close>, the rendering \<^verbatim>\<open>new Date(t).toISOString()\<close> of a time, and what the
  engine's \<^verbatim>\<open>RegExp\<close> does with a pattern that has syntax characters: for such a pattern and a
  subject, \<open>regexp_engine\<close> gives the error that \<^verbatim>\<open>new RegExp(pattern, 'g')\<close> throws, or the
  result of \<^verbatim>\<open>subject.replace(new RegExp(pattern, 'g'), '')\<close>. The host is POSIX
  (\<^verbatim>\<open>os.platform() !== 'win32'\<close>).
\<close>

record host =
  homedir :: string
  processCwd :: string
  processEnv :: "(string \<times> string) list"
  toISOString :: "int \<Rightarrow> string"
  regexp_engine :: "string \<Rightarrow> string \<Rightarrow> error + string"

section \<open>Directory tracker\<close>

text \<open>
  \<^verbatim>\<open>command.match(/^\s*cd\s+(.*)$/)\<close>. Without the \<^verbatim>\<open>m\<close> and \<^verbatim>\<open>s\<close> flags, \<^verbatim>\<open>$\<close> is the end of
  the input and \<^verbatim>\<open>.\<close> stops at a line terminator. The greedy \<^verbatim>\<open>\s+\<close> takes all the white space
  after \<^verbatim>\<open>cd\<close>; giving some of it back can only hand \<^verbatim>\<open>(.*)\<close> more characters, never remove a line
  terminator from the rest, so the match succeeds exactly when the greedy attempt does. The
  result is the captured group, or \<open>None\<close> for \<^verbatim>\<open>null\<close>.
\<close>

definition cdMatch :: "string \<Rightarrow> string option" where
  "cdMatch command =
     (let r1 = dropWhile isWhiteSpace command
      in if \<not> prefix ''cd'' r1 then None
         else
           let r2 = drop 2 r1
           in if takeWhile isWhiteSpace r2 = [] then None
              else
                let r3 = dropWhile isWhiteSpace r2
                in if list_ex isLineTerminator r3 then None else Some r3)"

definition unquote :: "string \<Rightarrow> string" where
  "unquote targetDir =
     (if (startsWith targetDir [CHR 0x22] \<and> endsWith targetDir [CHR 0x22]) \<or>
         (startsWith targetDir [CHR 0x27] \<and> endsWith targetDir [CHR 0x27])
      then slice_1_m1 targetDir else targetDir)"

text \<open>
  \<^verbatim>\<open>updateWorkingDirectory(command)\<close> of both variants, as a function of the tracked
  directory: the result is the new value of \<^verbatim>\<open>workingDirectory\<close>
  (\<^verbatim>\<open>currentWorkingDirectory\<close> in the single-session variant).
\<close>

definition updateWorkingDirectory :: "host \<Rightarrow> string \<Rightarrow> string \<Rightarrow> string" where
  "updateWorkingDirectory h workingDirectory command =
     (case cdMatch command of
        None \<Rightarrow> workingDirectory
      | Some g \<Rightarrow>
          let targetDir = unquote (trim g)
          in if \<not> path_isAbsolute targetDir then
               (if targetDir = ''..'' then path_dirname workingDirectory
                else if targetDir = ''~'' then homedir h
                else if startsWith targetDir ''~/'' then path_join [homedir h, drop 2 targetDir]
                else path_resolve (processCwd h) [workingDirectory, targetDir])
             else targetDir)"

section \<open>Sessions and the session manager of the multi-session variant\<close>

text \<open>
  A spawned shell: its pid, whether \<^verbatim>\<open>kill()\<close> was called on it, and the lines written to its
  standard input, oldest first.
\<close>

record process =
  pid :: nat
  killed :: bool
  stdin :: "string list"

text \<open>The fields of \<^verbatim>\<open>class TerminalSession\<close>; times are \<^verbatim>\<open>Date.now()\<close> milliseconds.\<close>

record session =
  session_id :: string
  process :: "process option"
  workingDirectory :: string
  environment :: "(string \<times> string) list"
  isActive :: bool
  lastActivity :: int
  shell :: string
  shellArgs :: "string list"

text \<open>
  The \<^verbatim>\<open>options\<close> object of \<^verbatim>\<open>createSession\<close> and of the constructor; \<open>None\<close> is a property
  that is absent. An environment is a list of bindings in which a later binding of a name
  overrides an earlier one, so that the spread \<^verbatim>\<open>{ ...process.env, ...options.env }\<close> is an append.
\<close>

record options =
  opt_id :: "string option"
  opt_cwd :: "string option"
  opt_shell :: "string option"
  opt_shellArgs :: "string list option"
  opt_env :: "(string \<times> string) list"

text \<open>\<^verbatim>\<open>x || d\<close> on an optional string: absent and empty are both falsy.\<close>

definition or_else :: "string option \<Rightarrow> string \<Rightarrow> string" where
  "or_else x d = (case x of None \<Rightarrow> d | Some s \<Rightarrow> if s = [] then d else s)"

definition TerminalSession :: "host \<Rightarrow> int \<Rightarrow> string \<Rightarrow> options \<Rightarrow> session" where
  "TerminalSession h now i opts =
     \<lparr> session_id = i,
       process = None,
       workingDirectory = or_else (opt_cwd opts) (processCwd h),
       environment = processEnv h @ opt_env opts,
       isActive = False,
       lastActivity = now,
       shell = or_else (opt_shell opts) ''/bin/bash'',
       shellArgs = (case opt_shellArgs opts of None \<Rightarrow> [''-i''] | Some a \<Rightarrow> a) \<rparr>"

text \<open>\<^verbatim>\<open>kill()\<close>: the process, if any, is killed and forgotten.\<close>

definition kill :: "session \<Rightarrow> session" where
  "kill s = s\<lparr> isActive := False, process := None \<rparr>"

text \<open>
  \<^verbatim>\<open>class TerminalManager\<close>. The \<^verbatim>\<open>Map\<close> of sessions keeps insertion order, so it is an
  association list: \<^verbatim>\<open>has\<close> and \<^verbatim>\<open>get\<close> are \<^const>\<open>map_of\<close>, \<^verbatim>\<open>set\<close> on a new key appends, and
  \<^verbatim>\<open>delete\<close> removes the entry of the key.
\<close>

record manager =
  sessions :: "(string \<times> session) list"
  nextId :: nat

definition TerminalManager :: manager where
  "TerminalManager = \<lparr> sessions = [], nextId = 1 \<rparr>"

definition map_has :: "(string \<times> 'v) list \<Rightarrow> string \<Rightarrow> bool" where
  "map_has m k = (map_of m k \<noteq> None)"

fun map_set :: "(string \<times> 'v) list \<Rightarrow> string \<Rightarrow> 'v \<Rightarrow> (string \<times> 'v) list" where
  "map_set [] k v = [(k, v)]"
| "map_set (p # ps) k v = (if fst p = k then (k, v) # ps else p # map_set ps k v)"

definition map_delete :: "(string \<times> 'v) list \<Rightarrow> string \<Rightarrow> (string \<times> 'v) list" where
  "map_delete m k = filter (\<lambda>p. fst p \<noteq> k) m"

text \<open>
  \<^verbatim>\<open>createSession(options)\<close> returns the new session or throws; the manager after the call is
  returned in both cases, because \<^verbatim>\<open>this.nextId++\<close> runs before the duplicate check.
\<close>

definition createSession :: "host \<Rightarrow> int \<Rightarrow> options \<Rightarrow> manager \<Rightarrow> (error + session) \<times> manager" where
  "createSession h now opts m =
     (let (i, m1) =
            (case opt_id opts of
               Some i \<Rightarrow> if i \<noteq> [] then (i, m)
                         else (''terminal_'' @ show_nat (nextId m), m\<lparr> nextId := nextId m + 1 \<rparr>)
             | None \<Rightarrow> (''terminal_'' @ show_nat (nextId m), m\<lparr> nextId := nextId m + 1 \<rparr>))
      in if map_has (sessions m1) i
         then (Inl (Error (''Terminal session '' @ quoted i @ '' already exists'')), m1)
         else
           let s = TerminalSession h now i opts
           in (Inr s, m1\<lparr> sessions := map_set (sessions m1) i s \<rparr>))"

definition getSession :: "manager \<Rightarrow> string \<Rightarrow> error + session" where
  "getSession m i =
     (case map_of (sessions m) i of
        None \<Rightarrow> Inl (Error (''Terminal session '' @ quoted i @ '' not found''))
      | Some s \<Rightarrow> Inr s)"

definition closeSession :: "manager \<Rightarrow> string \<Rightarrow> bool \<times> manager" where
  "closeSession m i =
     (case map_of (sessions m) i of
        Some s \<Rightarrow> (True, m\<lparr> sessions := map_delete (map_set (sessions m) i (kill s)) i \<rparr>)
      | None \<Rightarrow> (False, m))"

definition closeAllSessions :: "manager \<Rightarrow> manager" where
  "closeAllSessions m = m\<lparr> sessions := [] \<rparr>"

text \<open>
  \<^verbatim>\<open>cleanupInactiveSessions(maxAge)\<close> at time \<open>now\<close>. The first loop kills the sessions that are
  not active or whose last activity is more than \<open>maxAge\<close> ago, and collects their ids; the
  second loop deletes the collected ids.
\<close>

definition stale :: "int \<Rightarrow> int \<Rightarrow> session \<Rightarrow> bool" where
  "stale now maxAge s = (\<not> isActive s \<or> now - lastActivity s > maxAge)"

definition cleanupInactiveSessions :: "int \<Rightarrow> int \<Rightarrow> manager \<Rightarrow> manager" where
  "cleanupInactiveSessions now maxAge m =
     (let swept = map (\<lambda>(i, s). if stale now maxAge s then (i, kill s) else (i, s)) (sessions m);
          toRemove = map fst (filter (\<lambda>(i, s). stale now maxAge s) (sessions m))
      in m\<lparr> sessions := fold (\<lambda>i ss. map_delete ss i) toRemove swept \<rparr>)"

text \<open>The keys of a \<^verbatim>\<open>Map\<close> are distinct, and no session is registered under the empty id.\<close>

definition manager_ok :: "manager \<Rightarrow> bool" where
  "manager_ok m = (distinct (map fst (sessions m)) \<and> [] \<notin> set (map fst (sessions m)))"

section \<open>The completion protocol\<close>

text \<open>The object a command's promise is resolved with.\<close>

record outcome =
  success :: bool
  stdout :: string
  stderr :: string
  exitCode :: int
  error :: "string option"

text \<open>
  What the event loop can deliver to one pending command of the multi-session and of the
  single-session variant: a chunk on the shell's standard output, a chunk on its standard
  error, and the firing of the command's timer.
\<close>

datatype event = StdoutData string | StderrData string | TimeoutFired

text \<open>A timer of \<^verbatim>\<open>setTimeout\<close>: it runs its callback at most once, and not after \<^verbatim>\<open>clearTimeout\<close>.\<close>

datatype timer = Pending | Fired | Cleared

definition clearTimeout :: "timer \<Rightarrow> timer" where
  "clearTimeout t = (if t = Pending then Cleared else t)"

text \<open>
  The variables the promise's callbacks close over (\<^verbatim>\<open>stdout\<close>, \<^verbatim>\<open>stderr\<close>, \<^verbatim>\<open>completed\<close>,
  \<^verbatim>\<open>timeoutId\<close>), whether each listener is still attached, and the calls of \<^verbatim>\<open>resolve\<close> made so
  far, oldest first. The promise settles with the first of them.
\<close>

record pending =
  out_buf :: string
  err_buf :: string
  completed :: bool
  timeoutId :: timer
  onData_attached :: bool
  onErrorData_attached :: bool
  resolved :: "outcome list"

definition pending0 :: pending where
  "pending0 =
     \<lparr> out_buf = [], err_buf = [], completed = False, timeoutId = Pending,
       onData_attached = True, onErrorData_attached = True, resolved = [] \<rparr>"

text \<open>
  \<^verbatim>\<open>s.replace(new RegExp(pattern, 'g'), '')\<close>. A pattern without syntax characters matches
  itself and nothing else, and the replacement removes its occurrences from left to right.
  For a pattern with syntax characters the host's engine decides: \<open>Inl\<close> is the error thrown
  when the \<^verbatim>\<open>RegExp\<close> is constructed.
\<close>

definition isSyntaxCharacter :: "char \<Rightarrow> bool" where
  "isSyntaxCharacter c =
     (c \<in> set [CHR 0x5E, CHR 0x24, CHR 0x5C, CHR 0x2E, CHR 0x2A, CHR 0x2B, CHR 0x3F, CHR 0x28,
               CHR 0x29, CHR 0x5B, CHR 0x5D, CHR 0x7B, CHR 0x7D, CHR 0x7C])"

definition regex_literal :: "string \<Rightarrow> bool" where
  "regex_literal p = (\<not> list_ex isSyntaxCharacter p)"

fun strip_all :: "string \<Rightarrow> string \<Rightarrow> string" where
  "strip_all m [] = []"
| "strip_all m (c # cs) =
     (if m \<noteq> [] \<and> prefix m (c # cs) then strip_all m (drop (length m) (c # cs))
      else c # strip_all m cs)"

definition replace_RegExp_g :: "host \<Rightarrow> string \<Rightarrow> string \<Rightarrow> error + string" where
  "replace_RegExp_g h pattern s =
     (if regex_literal pattern then Inr (strip_all pattern s) else regexp_engine h pattern s)"

text \<open>\<^verbatim>\<open>s.replace(m, '')\<close> with a string \<open>m\<close>: only the first occurrence is removed.\<close>

fun strip_first :: "string \<Rightarrow> string \<Rightarrow> string" where
  "strip_first m [] = []"
| "strip_first m (c # cs) =
     (if prefix m (c # cs) then drop (length m) (c # cs) else c # strip_first m cs)"

definition timed_out :: string where
  "timed_out = ''Command timed out''"

text \<open>The callback of the timer.\<close>

definition onTimeout :: "pending \<Rightarrow> pending" where
  "onTimeout c =
     (if \<not> completed c then
        c\<lparr> completed := True,
           resolved := resolved c @
             [\<lparr> success = False, stdout = out_buf c, stderr = err_buf c @ CHR 0x0A # timed_out,
                exitCode = - 1, error = Some timed_out \<rparr>] \<rparr>
      else c)"

text \<open>
  The listener \<^verbatim>\<open>onData\<close> of both variants. The test is \<^verbatim>\<open>output.includes(marker)\<close>, where
  \<^verbatim>\<open>output\<close> is the chunk that has just arrived. The listener sets \<^verbatim>\<open>completed\<close>, clears the
  timer and removes both listeners before it builds the two \<^verbatim>\<open>RegExp\<close>s; \<open>Inl\<close> is the error
  one of them throws, which leaves the listener before \<^verbatim>\<open>resolve\<close> is reached.
\<close>

definition onData :: "host \<Rightarrow> string \<Rightarrow> string \<Rightarrow> string \<Rightarrow> pending \<Rightarrow> error + pending" where
  "onData h marker errorMarker output c =
     (let c1 = c\<lparr> out_buf := out_buf c @ output \<rparr>
      in if str_includes output marker then
           (if \<not> completed c1 then
              (let c2 = c1\<lparr> completed := True,
                            timeoutId := clearTimeout (timeoutId c1),
                            onData_attached := False,
                            onErrorData_attached := False \<rparr>
               in case replace_RegExp_g h marker (out_buf c2) of
                    Inl e \<Rightarrow> Inl e
                  | Inr so \<Rightarrow>
                      (case replace_RegExp_g h errorMarker (err_buf c2) of
                         Inl e \<Rightarrow> Inl e
                       | Inr se \<Rightarrow>
                           Inr (c2\<lparr> out_buf := trim so,
                                    err_buf := trim se,
                                    resolved := resolved c2 @
                                      [\<lparr> success = True, stdout = trim so, stderr = trim se,
                                         exitCode = 0, error = None \<rparr>] \<rparr>)))
            else Inr c1)
         else Inr c1)"

definition onErrorData :: "string \<Rightarrow> pending \<Rightarrow> pending" where
  "onErrorData d c = c\<lparr> err_buf := err_buf c @ d \<rparr>"

text \<open>
  One event: a listener runs if it is attached, the timer's callback if the timer is pending.
  \<open>Inl\<close> is an exception that a listener lets escape; no event is delivered after it.
\<close>

fun deliver :: "host \<Rightarrow> string \<Rightarrow> string \<Rightarrow> event \<Rightarrow> pending \<Rightarrow> error + pending" where
  "deliver h marker errorMarker (StdoutData d) c =
     (if onData_attached c then onData h marker errorMarker d c else Inr c)"
| "deliver h marker errorMarker (StderrData d) c =
     Inr (if onErrorData_attached c then onErrorData d c else c)"
| "deliver h marker errorMarker TimeoutFired c =
     Inr (if timeoutId c = Pending then onTimeout (c\<lparr> timeoutId := Fired \<rparr>) else c)"

fun run :: "host \<Rightarrow> string \<Rightarrow> string \<Rightarrow> event list \<Rightarrow> pending \<Rightarrow> error + pending" where
  "run h marker errorMarker [] c = Inr c"
| "run h marker errorMarker (e # es) c =
     (case deliver h marker errorMarker e c of
        Inl x \<Rightarrow> Inl x
      | Inr c' \<Rightarrow> run h marker errorMarker es c')"

text \<open>
  What \<^verbatim>\<open>await\<close> yields for a command whose events are \<open>evs\<close>: the timer is armed when the
  command is issued and the event loop fires it unless it was cleared, so the events are
  followed by \<^const>\<open>TimeoutFired\<close>. The promise is fulfilled with the first resolution; it
  never settles if a listener throws or if \<^verbatim>\<open>resolve\<close> is not called.
\<close>

definition await :: "host \<Rightarrow> string \<Rightarrow> string \<Rightarrow> event list \<Rightarrow> outcome settled" where
  "await h marker errorMarker evs =
     (case run h marker errorMarker (evs @ [TimeoutFired]) pending0 of
        Inl e \<Rightarrow> Unsettled (Some e)
      | Inr c \<Rightarrow> (case resolved c of [] \<Rightarrow> Unsettled None | r # _ \<Rightarrow> Fulfilled r))"

text \<open>The markers of the multi-session variant and of the single-session variant.\<close>

definition marker_multi :: "string \<Rightarrow> int \<Rightarrow> string" where
  "marker_multi i now = ''__COMMAND_COMPLETE_'' @ i @ ''_'' @ show_int now @ ''__''"

definition errorMarker_multi :: "string \<Rightarrow> int \<Rightarrow> string" where
  "errorMarker_multi i now = ''__COMMAND_ERROR_'' @ i @ ''_'' @ show_int now @ ''__''"

definition marker_single :: "int \<Rightarrow> string" where
  "marker_single now = ''__COMMAND_COMPLETE_'' @ show_int now @ ''__''"

definition errorMarker_single :: "int \<Rightarrow> string" where
  "errorMarker_single now = ''__COMMAND_ERROR_'' @ show_int now @ ''__''"

subsection \<open>The first variant: polling the accumulated chunks\<close>

text \<open>
  In \<^verbatim>\<open>terminal_mcp.js\<close> the listeners only collect chunks; an interval timer \<^verbatim>\<open>checkOutput\<close>
  looks for the marker in their concatenation every 10 ms, and a second timer stops the
  interval. The events are the two kinds of chunk, the main timer, a tick of the interval and
  the timer that stops it.
\<close>

datatype poll_event = StdoutChunk string | StderrChunk string | MainTimeout | CheckTick | CheckStop

record polling =
  chunks :: "string list"
  errorChunks :: "string list"
  completed_p :: bool
  timeoutId_p :: timer
  checkOutput_armed :: bool
  stopTimer :: timer
  listeners_attached :: bool
  resolved_p :: "outcome list"

definition polling0 :: polling where
  "polling0 =
     \<lparr> chunks = [], errorChunks = [], completed_p = False, timeoutId_p = Pending,
       checkOutput_armed = True, stopTimer = Pending, listeners_attached = True,
       resolved_p = [] \<rparr>"

definition cleanup :: "polling \<Rightarrow> polling" where
  "cleanup c = c\<lparr> listeners_attached := False, timeoutId_p := clearTimeout (timeoutId_p c) \<rparr>"

definition onMainTimeout :: "polling \<Rightarrow> polling" where
  "onMainTimeout c =
     (if \<not> completed_p c then
        (let c1 = cleanup (c\<lparr> completed_p := True \<rparr>)
         in c1\<lparr> resolved_p := resolved_p c1 @
                [\<lparr> success = False, stdout = concat (chunks c1),
                   stderr = concat (errorChunks c1) @ CHR 0x0A # timed_out,
                   exitCode = - 1, error = None \<rparr>] \<rparr>)
      else c)"

definition checkOutput :: "string \<Rightarrow> polling \<Rightarrow> polling" where
  "checkOutput marker c =
     (let output = concat (chunks c)
      in if str_includes output marker then
           (let c1 = c\<lparr> checkOutput_armed := False \<rparr>
            in if \<not> completed_p c1 then
                 (let c2 = cleanup (c1\<lparr> completed_p := True \<rparr>)
                  in c2\<lparr> resolved_p := resolved_p c2 @
                         [\<lparr> success = True, stdout = trim (strip_first marker output),
                            stderr = concat (errorChunks c2), exitCode = 0, error = None \<rparr>] \<rparr>)
               else c1)
         else c)"

fun deliver_p :: "string \<Rightarrow> poll_event \<Rightarrow> polling \<Rightarrow> polling" where
  "deliver_p marker (StdoutChunk d) c =
     (if listeners_attached c then c\<lparr> chunks := chunks c @ [d] \<rparr> else c)"
| "deliver_p marker (StderrChunk d) c =
     (if listeners_attached c then c\<lparr> errorChunks := errorChunks c @ [d] \<rparr> else c)"
| "deliver_p marker MainTimeout c =
     (if timeoutId_p c = Pending then onMainTimeout (c\<lparr> timeoutId_p := Fired \<rparr>) else c)"
| "deliver_p marker CheckTick c =
     (if checkOutput_armed c then checkOutput marker c else c)"
| "deliver_p marker CheckStop c =
     (if stopTimer c = Pending then c\<lparr> stopTimer := Fired, checkOutput_armed := False \<rparr> else c)"

definition run_p :: "string \<Rightarrow> poll_event list \<Rightarrow> polling \<Rightarrow> polling" where
  "run_p marker evs c = fold (deliver_p marker) evs c"

section \<open>Running a command in a session of the multi-session variant\<close>

text \<open>
  What the environment contributes to one command: the values of the reads of \<^verbatim>\<open>Date.now()\<close>,
  each read on its own (in the constructor of a session, in \<^verbatim>\<open>initialize\<close>, for
  \<^verbatim>\<open>lastActivity\<close>, for the marker and for the error marker), the pid of a shell spawned for
  it, the events that follow, and the result of a one-shot \<^verbatim>\<open>exec\<close> (read by the
  single-session variant only): its two outputs, preceded for a failure by the exit code and
  the message of the error.
\<close>

datatype exec_result =
    ExecOk string string
  | ExecError int string string string

record world =
  w_created :: int
  w_init_now :: int
  w_now :: int
  w_marker_now :: int
  w_error_now :: int
  w_pid :: nat
  w_events :: "event list"
  w_exec :: exec_result

definition shell_setup :: "string list" where
  "shell_setup = [''export PS1='' @ [CHR 0x22, CHR 0x22, CHR 0x0A], ''set +H'' @ [CHR 0x0A]]"

definition initialize :: "world \<Rightarrow> session \<Rightarrow> session" where
  "initialize w s =
     (let s1 = (if process s \<noteq> None then kill s else s)
      in s1\<lparr> process := Some \<lparr> pid = w_pid w, killed = False, stdin = shell_setup \<rparr>,
             isActive := True,
             lastActivity := w_init_now w \<rparr>)"

definition needs_shell :: "process option \<Rightarrow> bool" where
  "needs_shell p = (case p of None \<Rightarrow> True | Some q \<Rightarrow> killed q)"

definition stdin_write :: "string \<Rightarrow> process option \<Rightarrow> process option" where
  "stdin_write line p = map_option (\<lambda>q. q\<lparr> stdin := stdin q @ [line] \<rparr>) p"

text \<open>A template literal renders an absent value as \<^verbatim>\<open>undefined\<close>.\<close>

definition js_str :: "string option \<Rightarrow> string" where
  "js_str x = (case x of None \<Rightarrow> ''undefined'' | Some s \<Rightarrow> s)"

definition command_line :: "string option \<Rightarrow> string \<Rightarrow> string" where
  "command_line command marker =
     js_str command @ ''; echo '' @ [CHR 0x22] @ marker @ [CHR 0x22, CHR 0x0A]"

definition undefined_property :: "string \<Rightarrow> error" where
  "undefined_property name =
     Error (''Cannot read properties of undefined (reading '' @ quoted name @ '')'')"

text \<open>
  \<^verbatim>\<open>executeCommand(command, timeout)\<close> of a session. The delay of the timer only decides where
  \<^const>\<open>TimeoutFired\<close> stands among the events, so it is no parameter. The result is what
  becomes of the promise: with no command, \<^verbatim>\<open>command.match\<close> throws inside the promise's
  executor, after the line was written, and the promise is rejected. The session after the
  call is returned in every case.
\<close>

definition executeCommand ::
    "host \<Rightarrow> world \<Rightarrow> string option \<Rightarrow> session \<Rightarrow> outcome settled \<times> session" where
  "executeCommand h w command s =
     (let s1 = (if \<not> isActive s \<or> needs_shell (process s) then initialize w s else s);
          s2 = s1\<lparr> lastActivity := w_now w \<rparr>;
          marker = marker_multi (session_id s2) (w_marker_now w);
          errorMarker = errorMarker_multi (session_id s2) (w_error_now w);
          s3 = s2\<lparr> process := stdin_write (command_line command marker) (process s2) \<rparr>
      in case command of
           None \<Rightarrow> (Rejected (undefined_property ''match''), s3)
         | Some cmd \<Rightarrow>
             (await h marker errorMarker (w_events w),
              s3\<lparr> workingDirectory := updateWorkingDirectory h (workingDirectory s3) cmd \<rparr>))"

record status =
  st_id :: string
  st_isActive :: bool
  st_workingDirectory :: string
  st_shell :: string
  st_lastActivity :: int
  st_pid :: "nat option"

definition getStatus :: "session \<Rightarrow> status" where
  "getStatus s =
     \<lparr> st_id = session_id s, st_isActive = isActive s, st_workingDirectory = workingDirectory s,
       st_shell = shell s, st_lastActivity = lastActivity s,
       st_pid = map_option pid (process s) \<rparr>"

definition listSessions :: "manager \<Rightarrow> status list" where
  "listSessions m = map (\<lambda>p. getStatus (snd p)) (sessions m)"

section \<open>The request handlers\<close>

text \<open>
  A tool call carries a name and, optionally, an arguments object; a property the caller left
  out is \<open>None\<close>. The argument \<^verbatim>\<open>timeout\<close> only sets the delay of the timer, which the events of
  a \<^typ>\<open>world\<close> account for, so it is not among the properties. The response is its text and
  the flag \<^verbatim>\<open>isError\<close>.
\<close>

record args =
  a_options :: options
  terminal_id :: "string option"
  command :: "string option"
  use_persistent_shell :: "bool option"

record request =
  name :: string
  arguments :: "args option"

record response =
  content_text :: string
  isError :: bool

definition nl :: string where
  "nl = [CHR 0x0A]"

definition error_response :: "error \<Rightarrow> response" where
  "error_response e = \<lparr> content_text = ''Error: '' @ message e, isError = True \<rparr>"

definition unknown_tool :: "string \<Rightarrow> error" where
  "unknown_tool n = Error (''Unknown tool: '' @ n)"

text \<open>The blocks of a command's report that both variants share.\<close>

definition report_tail :: "outcome \<Rightarrow> string" where
  "report_tail r =
     (if stdout r \<noteq> [] then ''STDOUT:'' @ nl @ stdout r @ nl else []) @
     (if stderr r \<noteq> [] then ''STDERR:'' @ nl @ stderr r @ nl else []) @
     (case error r of
        None \<Rightarrow> []
      | Some e \<Rightarrow> if e \<noteq> [] then ''ERROR: '' @ e @ nl else [])"

definition pid_or_NA :: "nat option \<Rightarrow> string" where
  "pid_or_NA p = (case p of None \<Rightarrow> ''N/A'' | Some n \<Rightarrow> if n = 0 then ''N/A'' else show_nat n)"

definition options_of :: "args option \<Rightarrow> options" where
  "options_of a =
     (case a of
        None \<Rightarrow> \<lparr> opt_id = None, opt_cwd = None, opt_shell = None, opt_shellArgs = None,
                  opt_env = [] \<rparr>
      | Some x \<Rightarrow> a_options x)"

text \<open>
  The cases of the \<^verbatim>\<open>switch\<close> of the multi-session variant, inside its \<^verbatim>\<open>try\<close>. A session is
  an object shared with the manager's map, so what a call does to it is stored back under its
  key. \<open>w1\<close> and \<open>w2\<close> are the worlds of the first and of the second command of the request.
  The result is what becomes of the body: \<open>Rejected\<close> is an error thrown inside the \<^verbatim>\<open>try\<close>,
  and the body is unsettled when a command it awaits is.
\<close>

definition create_terminal ::
    "host \<Rightarrow> world \<Rightarrow> args option \<Rightarrow> manager \<Rightarrow> response settled \<times> manager" where
  "create_terminal h w1 a m =
     (case createSession h (w_created w1) (options_of a) m of
        (Inl e, m1) \<Rightarrow> (Rejected e, m1)
      | (Inr s, m1) \<Rightarrow>
          (case executeCommand h w1 (Some ''pwd'') (initialize w1 s) of
             (Unsettled x, s') \<Rightarrow>
               (Unsettled x, m1\<lparr> sessions := map_set (sessions m1) (session_id s) s' \<rparr>)
           | (Rejected e, s') \<Rightarrow>
               (Rejected e, m1\<lparr> sessions := map_set (sessions m1) (session_id s) s' \<rparr>)
           | (Fulfilled pwdResult, s') \<Rightarrow>
               (Fulfilled \<lparr> content_text =
                       ''Terminal session '' @ quoted (session_id s') @ '' created successfully'' @ nl @
                       ''Working Directory: '' @ workingDirectory s' @ nl @
                       ''Shell: '' @ shell s' @ nl @
                       ''PID: '' @ (case process s' of None \<Rightarrow> ''N/A'' | Some q \<Rightarrow> show_nat (pid q)) @ nl @
                       ''PWD: '' @ trim (stdout pwdResult),
                     isError = False \<rparr>,
                m1\<lparr> sessions := map_set (sessions m1) (session_id s) s' \<rparr>)))"

definition execute_command ::
    "host \<Rightarrow> world \<Rightarrow> world \<Rightarrow> args option \<Rightarrow> manager \<Rightarrow> response settled \<times> manager" where
  "execute_command h w1 w2 a m =
     (case a of
        None \<Rightarrow> (Rejected (undefined_property ''terminal_id''), m)
      | Some x \<Rightarrow>
          (case terminal_id x of
             None \<Rightarrow>
               (Rejected (Error (''Terminal session '' @ quoted ''undefined'' @ '' not found'')), m)
           | Some i \<Rightarrow>
               (case getSession m i of
                  Inl e \<Rightarrow> (Rejected e, m)
                | Inr s \<Rightarrow>
                    (case executeCommand h w1 (command x) s of
                       (Unsettled y, s1) \<Rightarrow>
                         (Unsettled y, m\<lparr> sessions := map_set (sessions m) i s1 \<rparr>)
                     | (Rejected e, s1) \<Rightarrow>
                         (Rejected e, m\<lparr> sessions := map_set (sessions m) i s1 \<rparr>)
                     | (Fulfilled result, s1) \<Rightarrow>
                         (case executeCommand h w2 (Some ''pwd'') s1 of
                            (Unsettled y, s2) \<Rightarrow>
                              (Unsettled y, m\<lparr> sessions := map_set (sessions m) i s2 \<rparr>)
                          | (Rejected e, s2) \<Rightarrow>
                              (Rejected e, m\<lparr> sessions := map_set (sessions m) i s2 \<rparr>)
                          | (Fulfilled pwdResult, s2) \<Rightarrow>
                              (Fulfilled \<lparr> content_text =
                                      ''Terminal: '' @ i @ nl @
                                      ''Command: '' @ js_str (command x) @ nl @
                                      ''Working Directory: '' @ workingDirectory s2 @ nl @
                                      ''Exit Code: '' @ show_int (exitCode result) @ nl @ nl @
                                      ''PWD: '' @ trim (stdout pwdResult) @ nl @
                                      report_tail result,
                                    isError = (\<not> success result) \<rparr>,
                               m\<lparr> sessions := map_set (sessions m) i s2 \<rparr>))))))"

definition status_block :: "host \<Rightarrow> status \<Rightarrow> string" where
  "status_block h st =
     ''ID: '' @ st_id st @ nl @
     ''Status: '' @ (if st_isActive st then ''Active'' else ''Inactive'') @ nl @
     ''Working Directory: '' @ st_workingDirectory st @ nl @
     ''Shell: '' @ st_shell st @ nl @
     ''PID: '' @ pid_or_NA (st_pid st) @ nl @
     ''Last Activity: '' @ toISOString h (st_lastActivity st) @ nl @
     ''---'' @ nl"

definition list_terminals :: "host \<Rightarrow> manager \<Rightarrow> response" where
  "list_terminals h m =
     (if listSessions m = [] then \<lparr> content_text = ''No active terminal sessions'', isError = False \<rparr>
      else \<lparr> content_text = ''Active Terminal Sessions:'' @ nl @ nl @
                    concat (map (status_block h) (listSessions m)),
             isError = False \<rparr>)"

definition close_terminal :: "args option \<Rightarrow> manager \<Rightarrow> response settled \<times> manager" where
  "close_terminal a m =
     (case a of
        None \<Rightarrow> (Rejected (undefined_property ''terminal_id''), m)
      | Some x \<Rightarrow>
          (case (case terminal_id x of None \<Rightarrow> (False, m) | Some i \<Rightarrow> closeSession m i) of
             (closed, m1) \<Rightarrow>
               (Fulfilled \<lparr> content_text = ''Terminal session '' @ quoted (js_str (terminal_id x)) @
                              (if closed then '' closed successfully'' else '' not found''),
                      isError = (\<not> closed) \<rparr>, m1)))"

definition close_all_terminals :: "manager \<Rightarrow> response \<times> manager" where
  "close_all_terminals m =
     (\<lparr> content_text = ''Closed '' @ show_nat (length (sessions m)) @ '' terminal session(s)'',
        isError = False \<rparr>, closeAllSessions m)"

definition get_terminal_status :: "host \<Rightarrow> args option \<Rightarrow> manager \<Rightarrow> response settled" where
  "get_terminal_status h a m =
     (case a of
        None \<Rightarrow> Rejected (undefined_property ''terminal_id'')
      | Some x \<Rightarrow>
          (case (case terminal_id x of
                   None \<Rightarrow> Inl (Error (''Terminal session '' @ quoted ''undefined'' @ '' not found''))
                 | Some i \<Rightarrow> getSession m i) of
             Inl e \<Rightarrow> Rejected e
           | Inr s \<Rightarrow>
               (let st = getStatus s
                in Fulfilled \<lparr> content_text =
                       ''Terminal Status: '' @ st_id st @ nl @
                       ''Active: '' @ (if st_isActive st then ''true'' else ''false'') @ nl @
                       ''Working Directory: '' @ st_workingDirectory st @ nl @
                       ''Shell: '' @ st_shell st @ nl @
                       ''PID: '' @ pid_or_NA (st_pid st) @ nl @
                       ''Last Activity: '' @ toISOString h (st_lastActivity st) @ nl,
                     isError = False \<rparr>)))"

text \<open>The body of the \<^verbatim>\<open>try\<close>.\<close>

definition try_multi ::
    "host \<Rightarrow> world \<Rightarrow> world \<Rightarrow> request \<Rightarrow> manager \<Rightarrow> response settled \<times> manager" where
  "try_multi h w1 w2 req m =
     (if name req = ''create_terminal'' then create_terminal h w1 (arguments req) m
      else if name req = ''execute_command'' then execute_command h w1 w2 (arguments req) m
      else if name req = ''list_terminals'' then (Fulfilled (list_terminals h m), m)
      else if name req = ''close_terminal'' then close_terminal (arguments req) m
      else if name req = ''close_all_terminals'' then
        (case close_all_terminals m of (r, m1) \<Rightarrow> (Fulfilled r, m1))
      else if name req = ''get_terminal_status'' then
        (get_terminal_status h (arguments req) m, m)
      else (Rejected (unknown_tool (name req)), m))"

text \<open>
  The handler of \<^verbatim>\<open>CallToolRequestSchema\<close>: the \<^verbatim>\<open>catch\<close> turns an error thrown inside the
  \<^verbatim>\<open>try\<close> into a response. In the handler's own result, \<open>Rejected\<close> is an error that leaves the
  handler, and \<open>Unsettled\<close> is a request that gets no response.
\<close>

definition catch_error :: "response settled \<times> 'st \<Rightarrow> response settled \<times> 'st" where
  "catch_error r =
     (case r of
        (Rejected e, st) \<Rightarrow> (Fulfilled (error_response e), st)
      | (x, st) \<Rightarrow> (x, st))"

definition CallTool_multi ::
    "host \<Rightarrow> world \<Rightarrow> world \<Rightarrow> request \<Rightarrow> manager \<Rightarrow> response settled \<times> manager" where
  "CallTool_multi h w1 w2 req m = catch_error (try_multi h w1 w2 req m)"

subsection \<open>The single-session variant\<close>

text \<open>
  The module-level variables \<^verbatim>\<open>shellProcess\<close>, \<^verbatim>\<open>currentWorkingDirectory\<close> and
  \<^verbatim>\<open>shellEnvironment\<close>. The calls of \<^verbatim>\<open>child_process.exec\<close> are recorded, oldest first, each with
  its command and the \<^verbatim>\<open>cwd\<close> it was given.
\<close>

record server =
  shellProcess :: "process option"
  currentWorkingDirectory :: string
  shellEnvironment :: "(string \<times> string) list"
  exec_calls :: "(string \<times> string) list"

definition initializeShell :: "world \<Rightarrow> server \<Rightarrow> server" where
  "initializeShell w sv =
     sv\<lparr> shellProcess := Some \<lparr> pid = w_pid w, killed = False, stdin = shell_setup \<rparr> \<rparr>"

text \<open>
  \<^verbatim>\<open>executeCommandInShell(command, timeout)\<close>: the shell is spawned if there is none, the
  listeners and the timer are set up, and the line is written.
\<close>

definition executeCommandInShell ::
    "host \<Rightarrow> world \<Rightarrow> string option \<Rightarrow> server \<Rightarrow> outcome settled \<times> server" where
  "executeCommandInShell h w cmd sv =
     (let sv1 = (if needs_shell (shellProcess sv) then initializeShell w sv else sv);
          marker = marker_single (w_marker_now w);
          errorMarker = errorMarker_single (w_error_now w)
      in (await h marker errorMarker (w_events w),
          sv1\<lparr> shellProcess := stdin_write (command_line cmd marker) (shellProcess sv1) \<rparr>))"

text \<open>The callback of \<^verbatim>\<open>exec\<close>.\<close>

definition exec_outcome :: "exec_result \<Rightarrow> outcome" where
  "exec_outcome r =
     (case r of
        ExecOk so se \<Rightarrow>
          \<lparr> success = True, stdout = so, stderr = se, exitCode = 0, error = None \<rparr>
      | ExecError code msg so se \<Rightarrow>
          \<lparr> success = False, stdout = so, stderr = se, exitCode = code, error = Some msg \<rparr>)"

definition command_report :: "string option \<Rightarrow> string \<Rightarrow> outcome \<Rightarrow> response" where
  "command_report cmd cwd result =
     \<lparr> content_text =
         ''Command: '' @ js_str cmd @ nl @
         ''Working Directory: '' @ cwd @ nl @
         ''Exit Code: '' @ show_int (exitCode result) @ nl @ nl @
         report_tail result,
       isError = (\<not> success result) \<rparr>"

text \<open>
  The case \<^verbatim>\<open>execute_command\<close>. The first branch is taken when
  \<^verbatim>\<open>args.use_persistent_shell !== true\<close>.
\<close>

definition execute_command_single ::
    "host \<Rightarrow> world \<Rightarrow> args option \<Rightarrow> server \<Rightarrow> response settled \<times> server" where
  "execute_command_single h w a sv =
     (case a of
        None \<Rightarrow> (Rejected (undefined_property ''use_persistent_shell''), sv)
      | Some x \<Rightarrow>
          if use_persistent_shell x \<noteq> Some True then
            (case executeCommandInShell h w (command x) sv of
               (Unsettled y, sv1) \<Rightarrow> (Unsettled y, sv1)
             | (Rejected e, sv1) \<Rightarrow> (Rejected e, sv1)
             | (Fulfilled result, sv1) \<Rightarrow>
                 (Fulfilled (command_report (command x) (currentWorkingDirectory sv1) result), sv1))
          else
            (case command x of
               None \<Rightarrow> (Rejected (undefined_property ''match''), sv)
             | Some cmd \<Rightarrow>
                 (let cwd = updateWorkingDirectory h (currentWorkingDirectory sv) cmd;
                      sv1 = sv\<lparr> currentWorkingDirectory := cwd,
                                exec_calls := exec_calls sv @ [(cmd, cwd)] \<rparr>
                  in (Fulfilled (command_report (command x) cwd (exec_outcome (w_exec w))), sv1))))"

definition reset_shell :: "host \<Rightarrow> server \<Rightarrow> response \<times> server" where
  "reset_shell h sv =
     (\<lparr> content_text = ''Shell session reset successfully'', isError = False \<rparr>,
      sv\<lparr> shellProcess := None, currentWorkingDirectory := processCwd h,
          shellEnvironment := processEnv h \<rparr>)"

definition try_single ::
    "host \<Rightarrow> world \<Rightarrow> request \<Rightarrow> server \<Rightarrow> response settled \<times> server" where
  "try_single h w req sv =
     (if name req = ''execute_command'' then execute_command_single h w (arguments req) sv
      else if name req = ''reset_shell'' then
        (case reset_shell h sv of (r, sv1) \<Rightarrow> (Fulfilled r, sv1))
      else (Rejected (unknown_tool (name req)), sv))"

definition CallTool_single ::
    "host \<Rightarrow> world \<Rightarrow> request \<Rightarrow> server \<Rightarrow> response settled \<times> server" where
  "CallTool_single h w req sv = catch_error (try_single h w req sv)"

subsection \<open>The first variant\<close>

text \<open>
  \<^verbatim>\<open>terminal_mcp.js\<close> keeps one \<^verbatim>\<open>cmd.exe\<close>. Its handler has no \<^verbatim>\<open>try\<close>: it throws on a name
  other than \<^verbatim>\<open>execute_command\<close>, and awaits the command otherwise.
\<close>

record world_p =
  wp_now :: int
  wp_pid :: nat
  wp_events :: "poll_event list"

record server_p =
  shellProcess_p :: "process option"
  currentWorkingDirectory_p :: string

definition initializeShell_p :: "world_p \<Rightarrow> server_p \<Rightarrow> server_p" where
  "initializeShell_p w sv =
     sv\<lparr> shellProcess_p := Some \<lparr> pid = wp_pid w, killed = False, stdin = [] \<rparr> \<rparr>"

definition await_p :: "string \<Rightarrow> poll_event list \<Rightarrow> outcome settled" where
  "await_p marker evs =
     (case resolved_p (run_p marker (evs @ [MainTimeout]) polling0) of
        [] \<Rightarrow> Unsettled None
      | r # _ \<Rightarrow> Fulfilled r)"

definition executeCommand_p ::
    "world_p \<Rightarrow> string option \<Rightarrow> server_p \<Rightarrow> outcome settled \<times> server_p" where
  "executeCommand_p w cmd sv =
     (let sv1 = (if needs_shell (shellProcess_p sv) then initializeShell_p w sv else sv);
          marker = marker_single (wp_now w)
      in (await_p marker (wp_events w),
          sv1\<lparr> shellProcess_p :=
                 stdin_write (js_str cmd @ '' && echo '' @ marker @ [CHR 0x0D, CHR 0x0A])
                   (shellProcess_p sv1) \<rparr>))"


section \<open>Notions used in the statements\<close>

text \<open>
  The text that a list of events brings on each stream, the events that precede the timer,
  and the absence of a chunk that holds the marker.
\<close>

fun stdout_of :: "event list \<Rightarrow> string" where
  "stdout_of [] = []"
| "stdout_of (StdoutData d # es) = d @ stdout_of es"
| "stdout_of (e # es) = stdout_of es"

fun stderr_of :: "event list \<Rightarrow> string" where
  "stderr_of [] = []"
| "stderr_of (StderrData d # es) = d @ stderr_of es"
| "stderr_of (e # es) = stderr_of es"

definition before_timeout :: "event list \<Rightarrow> event list" where
  "before_timeout evs = takeWhile (\<lambda>e. e \<noteq> TimeoutFired) evs"

fun no_marker_chunk :: "string \<Rightarrow> event list \<Rightarrow> bool" where
  "no_marker_chunk m [] = True"
| "no_marker_chunk m (StdoutData d # es) = (\<not> str_includes d m \<and> no_marker_chunk m es)"
| "no_marker_chunk m (e # es) = no_marker_chunk m es"

text \<open>
  A stretch of events of the first variant in which chunks arrive and every check misses:
  no check finds the marker in the chunks collected before it (\<open>acc\<close> holds the chunks
  collected so far), and neither timer fires.
\<close>

fun all_checks_miss :: "string \<Rightarrow> string list \<Rightarrow> poll_event list \<Rightarrow> bool" where
  "all_checks_miss m acc [] = True"
| "all_checks_miss m acc (StdoutChunk d # es) = all_checks_miss m (acc @ [d]) es"
| "all_checks_miss m acc (StderrChunk d # es) = all_checks_miss m acc es"
| "all_checks_miss m acc (CheckTick # es) =
     (\<not> str_includes (concat acc) m \<and> all_checks_miss m acc es)"
| "all_checks_miss m acc (MainTimeout # es) = False"
| "all_checks_miss m acc (CheckStop # es) = False"

fun stdout_chunks :: "poll_event list \<Rightarrow> string list" where
  "stdout_chunks [] = []"
| "stdout_chunks (StdoutChunk d # es) = d # stdout_chunks es"
| "stdout_chunks (e # es) = stdout_chunks es"

fun stderr_chunks :: "poll_event list \<Rightarrow> string list" where
  "stderr_chunks [] = []"
| "stderr_chunks (StderrChunk d # es) = d # stderr_chunks es"
| "stderr_chunks (e # es) = stderr_chunks es"

text \<open>
  The state of a pending command is consistent: \<^verbatim>\<open>completed\<close> is set exactly when
  \<^verbatim>\<open>resolve\<close> has been called, it has been called at most once, and a timer that is no longer
  pending belongs to a completed command.
\<close>

definition consistent :: "pending \<Rightarrow> bool" where
  "consistent c =
     ((completed c \<longleftrightarrow> resolved c \<noteq> []) \<and> length (resolved c) \<le> 1 \<and>
      (timeoutId c \<noteq> Pending \<longrightarrow> completed c))"

definition consistent_p :: "polling \<Rightarrow> bool" where
  "consistent_p c =
     ((completed_p c \<longleftrightarrow> resolved_p c \<noteq> []) \<and> length (resolved_p c) \<le> 1 \<and>
      (timeoutId_p c \<noteq> Pending \<longrightarrow> completed_p c))"

text \<open>The outcome of a command that timed out, from the text collected on each stream.\<close>

definition timeout_outcome :: "string \<Rightarrow> string \<Rightarrow> outcome" where
  "timeout_outcome so se =
    \<lparr> success = False, stdout = so, stderr = se @ CHR 0x0A # ''Command timed out'',
              exitCode = - 1, error = Some ''Command timed out'' \<rparr>"

text \<open>Two sessions for the examples: one just created, one that is running.\<close>

definition fresh_session :: session where
  "fresh_session =
     \<lparr> session_id = ''s1'', process = None, workingDirectory = ''/tmp'', environment = [],
       isActive = False, lastActivity = 1000, shell = ''/bin/bash'', shellArgs = [''-i''] \<rparr>"

definition live_session :: session where
  "live_session =
     \<lparr> session_id = ''s2'', process = Some \<lparr> pid = 7, killed = False, stdin = [] \<rparr>,
       workingDirectory = ''/tmp'', environment = [], isActive = True, lastActivity = 900,
       shell = ''/bin/bash'', shellArgs = [''-i''] \<rparr>"


text \<open>
  A host for the examples. Its engine rejects a pattern in which a group is opened and cannot
  be closed, as every ECMAScript engine does when the \<^verbatim>\<open>RegExp\<close> is constructed; the examples
  give it no other pattern, and for any other it leaves the subject as it is.
\<close>

definition unterminated_group :: "string \<Rightarrow> bool" where
  "unterminated_group p =
     (CHR 0x28 \<in> set p \<and> CHR 0x29 \<notin> set p \<and> CHR 0x5C \<notin> set p \<and> CHR 0x5B \<notin> set p)"

definition engine0 :: "string \<Rightarrow> string \<Rightarrow> error + string" where
  "engine0 p s =
     (if unterminated_group p
      then Inl (Error (''Invalid regular expression: /'' @ p @ ''/g: Unterminated group''))
      else Inr s)"

definition host0 :: host where
  "host0 =
     \<lparr> homedir = ''/home/u'', processCwd = ''/srv'', processEnv = [], toISOString = show_int,
       regexp_engine = engine0 \<rparr>"

text \<open>The shell answers in two chunks, and the marker is cut between them.\<close>

definition split_world :: world where
  "split_world =
     \<lparr> w_created = 1690, w_init_now = 1695, w_now = 1699, w_marker_now = 1700, w_error_now = 1701,
       w_pid = 42,
       w_events = [StdoutData (''hello'' @ nl @ ''__COMMAND_COMP''),
                   StdoutData (''LETE_s2_1700__'' @ nl)],
       w_exec = ExecOk [] [] \<rparr>"

definition split_world_single :: world where
  "split_world_single =
     \<lparr> w_created = 1690, w_init_now = 1695, w_now = 1699, w_marker_now = 1700, w_error_now = 1701,
       w_pid = 42,
       w_events = [StdoutData (''hello'' @ nl @ ''__COMMAND_COMP''),
                   StdoutData (''LETE_1700__'' @ nl)],
       w_exec = ExecOk [] [] \<rparr>"

text \<open>The shell answers in one chunk that ends with the marker; a one-shot exec prints \<open>hi\<close>.\<close>

definition whole_world :: world where
  "whole_world =
     \<lparr> w_created = 1690, w_init_now = 1695, w_now = 1699, w_marker_now = 1700, w_error_now = 1701,
       w_pid = 42,
       w_events = [StderrData '' warn '', StdoutData (''hi'' @ nl @ ''__COMMAND_COMPLETE_1700__'' @ nl)],
       w_exec = ExecOk (''hi'' @ nl) [] \<rparr>"

definition whole_world_multi :: world where
  "whole_world_multi =
     \<lparr> w_created = 1690, w_init_now = 1695, w_now = 1699, w_marker_now = 1700, w_error_now = 1701,
       w_pid = 42,
       w_events = [StderrData '' warn '', StdoutData (''hi'' @ nl @ ''__COMMAND_COMPLETE_s2_1700__'' @ nl)],
       w_exec = ExecOk (''hi'' @ nl) [] \<rparr>"

text \<open>
  A session whose id, given by the caller, has an opening parenthesis, and a shell that
  answers in one chunk that ends with the session's marker.
\<close>

definition paren_session :: session where
  "paren_session =
     \<lparr> session_id = ''a(b'', process = Some \<lparr> pid = 7, killed = False, stdin = [] \<rparr>,
       workingDirectory = ''/tmp'', environment = [], isActive = True, lastActivity = 900,
       shell = ''/bin/bash'', shellArgs = [''-i''] \<rparr>"

definition paren_world :: world where
  "paren_world =
     \<lparr> w_created = 1690, w_init_now = 1695, w_now = 1699, w_marker_now = 1700, w_error_now = 1701,
       w_pid = 42,
       w_events = [StdoutData (''hi'' @ nl @ ''__COMMAND_COMPLETE_a(b_1700__'' @ nl)],
       w_exec = ExecOk [] [] \<rparr>"

definition server0 :: server where
  "server0 =
     \<lparr> shellProcess = Some \<lparr> pid = 7, killed = False, stdin = shell_setup \<rparr>,
       currentWorkingDirectory = ''/srv'', shellEnvironment = [], exec_calls = [] \<rparr>"

definition no_options :: options where
  "no_options =
     \<lparr> opt_id = None, opt_cwd = None, opt_shell = None, opt_shellArgs = None, opt_env = [] \<rparr>"

definition echo_args :: "bool option \<Rightarrow> args" where
  "echo_args flag =
     \<lparr> a_options = no_options, terminal_id = None, command = Some ''echo hi'',
       use_persistent_shell = flag \<rparr>"

definition cd_args :: "bool option \<Rightarrow> args" where
  "cd_args flag =
     \<lparr> a_options = no_options, terminal_id = None, command = Some ''cd sub'',
       use_persistent_shell = flag \<rparr>"


text \<open>
  The first variant: the marker arrives twice, with text between, and the shell writes to
  its standard error.
\<close>

definition twice_world :: world_p where
  "twice_world =
     \<lparr> wp_now = 1700, wp_pid = 42,
       wp_events = [StdoutChunk ''__COMMAND_COMPLETE_1700__'', StderrChunk '' warn '',
                    StdoutChunk '' a __COMMAND_COMPLETE_1700__'', CheckTick] \<rparr>"

text \<open>
  The first variant: a check misses, the marker arrives once, cut between two chunks, and
  the next check finds it.
\<close>

definition polled_world :: world_p where
  "polled_world =
     \<lparr> wp_now = 1700, wp_pid = 42,
       wp_events = [StdoutChunk (''hi'' @ nl @ ''__COMMAND_COMP''), CheckTick, StderrChunk '' warn '',
                    StdoutChunk (''LETE_1700__'' @ nl), CheckTick] \<rparr>"

definition server_p0 :: server_p where
  "server_p0 =
     \<lparr> shellProcess_p = Some \<lparr> pid = 7, killed = False, stdin = [] \<rparr>,
       currentWorkingDirectory_p = ''C:'' \<rparr>"

text \<open>
  The marker occurs once in a text: it occurs, and no occurrence is left when the first one
  is removed.
\<close>

definition occurs_once :: "string \<Rightarrow> string \<Rightarrow> bool" where
  "occurs_once m s = (str_includes s m \<and> \<not> str_includes (strip_first m s) m)"

section \<open>Auxiliary facts\<close>

lemma str_includes_sublist: "str_includes s m = sublist m s"
  by (induction s) (auto simp: sublist_Cons_right)

lemma run_append:
  "run h m em (xs @ ys) c = (case run h m em xs c of Inl x \<Rightarrow> Inl x | Inr c' \<Rightarrow> run h m em ys c')"
  by (induction xs arbitrary: c) (auto split: sum.splits)

lemma deliver_total:
  "regex_literal m \<Longrightarrow> regex_literal em \<Longrightarrow> \<exists>c'. deliver h m em e c = Inr c'"
  by (cases e) (auto simp: onData_def replace_RegExp_g_def Let_def)

lemma deliver_consistent:
  "deliver h m em e c = Inr c' \<Longrightarrow> consistent c \<Longrightarrow> consistent c'"
  by (cases e)
     (auto simp: onData_def onErrorData_def onTimeout_def consistent_def Let_def clearTimeout_def
           split: if_splits sum.splits)

lemma deliver_completed:
  "completed c \<Longrightarrow> \<exists>c'. deliver h m em e c = Inr c' \<and> completed c' \<and> resolved c' = resolved c"
  by (cases e) (auto simp: onData_def onErrorData_def onTimeout_def Let_def)

lemma run_completed:
  "completed c \<Longrightarrow> \<exists>c'. run h m em evs c = Inr c' \<and> completed c' \<and> resolved c' = resolved c"
proof (induction evs arbitrary: c)
  case Nil
  then show ?case by simp
next
  case (Cons e evs)
  from deliver_completed [OF Cons.prems, where h = h and m = m and em = em and e = e]
  obtain c1 where c1: "deliver h m em e c = Inr c1" "completed c1" "resolved c1 = resolved c"
    by blast
  from Cons.IH [OF c1(2)] c1 show ?case by auto
qed

lemma run_total:
  "regex_literal m \<Longrightarrow> regex_literal em \<Longrightarrow> \<exists>c'. run h m em evs c = Inr c'"
proof (induction evs arbitrary: c)
  case Nil
  then show ?case by simp
next
  case (Cons e evs)
  from deliver_total [OF Cons.prems, where h = h and e = e and c = c] obtain c1 where "deliver h m em e c = Inr c1" by blast
  with Cons.IH [OF Cons.prems, of c1] show ?case by simp
qed

lemma run_consistent:
  "run h m em evs c = Inr c' \<Longrightarrow> consistent c \<Longrightarrow> consistent c'"
  by (induction evs arbitrary: c) (auto split: sum.splits dest: deliver_consistent)

lemma deliver_timer_gone:
  "deliver h m em e c = Inr c' \<Longrightarrow> timeoutId c \<noteq> Pending \<or> e = TimeoutFired \<Longrightarrow> timeoutId c' \<noteq> Pending"
  by (cases e)
     (auto simp: onData_def onErrorData_def onTimeout_def Let_def clearTimeout_def
           split: if_splits sum.splits)

lemma run_timer_gone:
  "run h m em evs c = Inr c' \<Longrightarrow> timeoutId c \<noteq> Pending \<or> TimeoutFired \<in> set evs \<Longrightarrow>
   timeoutId c' \<noteq> Pending"
proof (induction evs arbitrary: c)
  case Nil
  then show ?case by simp
next
  case (Cons e evs)
  from Cons.prems(1) obtain c1 where c1: "deliver h m em e c = Inr c1" "run h m em evs c1 = Inr c'"
    by (auto split: sum.splits)
  show ?case
  proof (cases "timeoutId c \<noteq> Pending \<or> e = TimeoutFired")
    case True
    with deliver_timer_gone [OF c1(1)] have "timeoutId c1 \<noteq> Pending" by blast
    with Cons.IH [OF c1(2)] show ?thesis by blast
  next
    case False
    with Cons.prems(2) have "TimeoutFired \<in> set evs" by auto
    with Cons.IH [OF c1(2)] show ?thesis by blast
  qed
qed

lemma consistent_pending0: "consistent pending0"
  by (simp add: consistent_def pending0_def)

lemma exactly_once_run:
  assumes "regex_literal m" "regex_literal em"
  shows "\<exists>c1 c2. run h m em evs1 pending0 = Inr c1 \<and> run h m em (evs1 @ evs2) pending0 = Inr c2 \<and>
           length (resolved c2) \<le> 1 \<and>
           (resolved c1 \<noteq> [] \<longrightarrow> resolved c2 = resolved c1) \<and>
           (TimeoutFired \<in> set (evs1 @ evs2) \<longrightarrow> length (resolved c2) = 1)"
proof -
  from run_total [OF assms, where h = h] obtain c1 where c1: "run h m em evs1 pending0 = Inr c1" by blast
  from run_total [OF assms, where h = h] obtain c2 where c2: "run h m em evs2 c1 = Inr c2" by blast
  from c1 c2 have c12: "run h m em (evs1 @ evs2) pending0 = Inr c2" by (simp add: run_append)
  have k1: "consistent c1" using run_consistent [OF c1 consistent_pending0] .
  have k2: "consistent c2" using run_consistent [OF c2 k1] .
  have a: "length (resolved c2) \<le> 1" using k2 by (simp add: consistent_def)
  have b: "resolved c1 \<noteq> [] \<longrightarrow> resolved c2 = resolved c1"
  proof
    assume "resolved c1 \<noteq> []"
    with k1 have "completed c1" by (simp add: consistent_def)
    from run_completed [OF this, where h = h and m = m and em = em and evs = evs2] c2 show "resolved c2 = resolved c1" by auto
  qed
  have c: "TimeoutFired \<in> set (evs1 @ evs2) \<longrightarrow> length (resolved c2) = 1"
  proof
    assume "TimeoutFired \<in> set (evs1 @ evs2)"
    with run_timer_gone [OF c12] have "timeoutId c2 \<noteq> Pending" by blast
    with k2 have "resolved c2 \<noteq> []" by (auto simp: consistent_def)
    with a show "length (resolved c2) = 1" by (cases "resolved c2") auto
  qed
  from c1 c12 a b c show ?thesis by blast
qed

lemma run_quiet:
  assumes "no_marker_chunk m evs" "TimeoutFired \<notin> set evs"
    "onData_attached c" "onErrorData_attached c"
  shows "run h m em evs c =
         Inr (c\<lparr> out_buf := out_buf c @ stdout_of evs, err_buf := err_buf c @ stderr_of evs \<rparr>)"
  using assms
proof (induction evs arbitrary: c)
  case Nil
  then show ?case by simp
next
  case (Cons e evs)
  show ?case
  proof (cases e)
    case (StdoutData d)
    with Cons.prems have d: "\<not> str_includes d m" and q: "no_marker_chunk m evs"
      and t: "TimeoutFired \<notin> set evs" by auto
    let ?c1 = "c\<lparr> out_buf := out_buf c @ d \<rparr>"
    from d Cons.prems(3) StdoutData have s: "deliver h m em e c = Inr ?c1"
      by (simp add: onData_def Let_def)
    have "run h m em evs ?c1 =
          Inr (?c1\<lparr> out_buf := out_buf ?c1 @ stdout_of evs, err_buf := err_buf ?c1 @ stderr_of evs \<rparr>)"
      by (rule Cons.IH [OF q t]) (use Cons.prems in simp_all)
    with s StdoutData show ?thesis by simp
  next
    case (StderrData d)
    with Cons.prems have q: "no_marker_chunk m evs" and t: "TimeoutFired \<notin> set evs" by auto
    let ?c1 = "c\<lparr> err_buf := err_buf c @ d \<rparr>"
    from Cons.prems(4) StderrData have s: "deliver h m em e c = Inr ?c1"
      by (simp add: onErrorData_def)
    have "run h m em evs ?c1 =
          Inr (?c1\<lparr> out_buf := out_buf ?c1 @ stdout_of evs, err_buf := err_buf ?c1 @ stderr_of evs \<rparr>)"
      by (rule Cons.IH [OF q t]) (use Cons.prems in simp_all)
    with s StderrData show ?thesis by simp
  next
    case TimeoutFired
    with Cons.prems show ?thesis by simp
  qed
qed

lemma run_quiet0:
  assumes "no_marker_chunk m evs" "TimeoutFired \<notin> set evs"
  shows "run h m em evs pending0 = Inr (pending0\<lparr> out_buf := stdout_of evs, err_buf := stderr_of evs \<rparr>)"
  using run_quiet [OF assms, where c = pending0 and em = em and h = h] by (simp add: pending0_def)

lemma split_at_timeout:
  "\<exists>rest. evs @ [TimeoutFired] = before_timeout evs @ TimeoutFired # rest"
proof (cases "dropWhile (\<lambda>e. e \<noteq> TimeoutFired) evs")
  case Nil
  then have "before_timeout evs = evs"
    by (metis before_timeout_def takeWhile_dropWhile_id append_Nil2)
  then show ?thesis by simp
next
  case (Cons x xs)
  then have "x = TimeoutFired"
    using hd_dropWhile [of "\<lambda>e. e \<noteq> TimeoutFired" evs] by auto
  with Cons have "evs = before_timeout evs @ TimeoutFired # xs"
    by (metis before_timeout_def takeWhile_dropWhile_id)
  then have "evs @ [TimeoutFired] = before_timeout evs @ TimeoutFired # (xs @ [TimeoutFired])"
    by (metis append.assoc append_Cons)
  then show ?thesis by blast
qed

lemma before_timeout_no_timer: "TimeoutFired \<notin> set (before_timeout evs)"
  by (auto simp: before_timeout_def dest: set_takeWhileD)

lemma await_timeout:
  assumes "no_marker_chunk m (before_timeout evs)"
  shows "await h m em evs =
         Fulfilled (timeout_outcome (stdout_of (before_timeout evs)) (stderr_of (before_timeout evs)))"
proof -
  let ?pre = "before_timeout evs"
  obtain rest where r: "evs @ [TimeoutFired] = ?pre @ TimeoutFired # rest"
    using split_at_timeout by blast
  let ?c1 = "pending0\<lparr> out_buf := stdout_of ?pre, err_buf := stderr_of ?pre \<rparr>"
  have 1: "run h m em ?pre pending0 = Inr ?c1"
    by (rule run_quiet0 [OF assms before_timeout_no_timer])
  let ?c2 = "onTimeout (?c1\<lparr> timeoutId := Fired \<rparr>)"
  have 2: "deliver h m em TimeoutFired ?c1 = Inr ?c2" by (simp add: pending0_def)
  have 3: "completed ?c2"
    "resolved ?c2 = [timeout_outcome (stdout_of ?pre) (stderr_of ?pre)]"
    by (simp_all add: onTimeout_def pending0_def timeout_outcome_def timed_out_def)
  from run_completed [OF 3(1), where h = h and m = m and em = em and evs = rest] obtain c3
    where c3: "run h m em rest ?c2 = Inr c3" "resolved c3 = resolved ?c2" by blast
  have "run h m em (evs @ [TimeoutFired]) pending0 = Inr c3"
    unfolding r run_append using 1 2 c3(1) by simp
  with c3(2) 3(2) show ?thesis by (simp add: await_def)
qed

lemma onData_marker:
  assumes "str_includes d m" "\<not> completed c" "regex_literal m" "regex_literal em"
  shows "onData h m em d c =
         Inr (c\<lparr> out_buf := trim (strip_all m (out_buf c @ d)),
                  err_buf := trim (strip_all em (err_buf c)),
                  completed := True,
                  timeoutId := clearTimeout (timeoutId c),
                  onData_attached := False,
                  onErrorData_attached := False,
                  resolved := resolved c @
                    [\<lparr> success = True, stdout = trim (strip_all m (out_buf c @ d)),
                       stderr = trim (strip_all em (err_buf c)),
                       exitCode = 0, error = None \<rparr>] \<rparr>)"
  using assms by (simp add: onData_def Let_def replace_RegExp_g_def)

lemma await_marker:
  assumes q: "no_marker_chunk m pre" and t: "TimeoutFired \<notin> set pre"
    and d: "str_includes d m" and l: "regex_literal m" "regex_literal em"
  shows "await h m em (pre @ StdoutData d # post) =
         Fulfilled \<lparr> success = True, stdout = trim (strip_all m (stdout_of pre @ d)),
                stderr = trim (strip_all em (stderr_of pre)), exitCode = 0, error = None \<rparr>"
proof -
  let ?c1 = "pending0\<lparr> out_buf := stdout_of pre, err_buf := stderr_of pre \<rparr>"
  have 1: "run h m em pre pending0 = Inr ?c1" by (rule run_quiet0 [OF q t])
  let ?r = "\<lparr> success = True, stdout = trim (strip_all m (stdout_of pre @ d)),
                stderr = trim (strip_all em (stderr_of pre)), exitCode = 0, error = None \<rparr>"
  have nc: "\<not> completed ?c1" by (simp add: pending0_def)
  have at: "onData_attached ?c1" by (simp add: pending0_def)
  from onData_marker [OF d nc l] at
  obtain c2 where 2: "deliver h m em (StdoutData d) ?c1 = Inr c2" and
    c2: "completed c2" "resolved c2 = resolved ?c1 @ [?r]"
    by simp
  have r1: "resolved ?c1 = []" by (simp add: pending0_def)
  from run_completed [OF c2(1), where h = h and m = m and em = em and evs = "post @ [TimeoutFired]"] obtain c3
    where c3: "run h m em (post @ [TimeoutFired]) c2 = Inr c3" "resolved c3 = resolved c2" by blast
  have "run h m em ((pre @ StdoutData d # post) @ [TimeoutFired]) pending0 = Inr c3"
    using 1 2 c3(1) by (simp add: run_append)
  with c3(2) c2(2) r1 show ?thesis by (simp add: await_def)
qed

lemma syntax_codes:
  "isSyntaxCharacter c \<Longrightarrow>
   (of_char c :: nat) \<in> {94, 36, 92, 46, 42, 43, 63, 40, 41, 91, 93, 123, 125, 124}"
  by (auto simp: isSyntaxCharacter_def)

lemma digit_char_literal: "d < 10 \<Longrightarrow> \<not> isSyntaxCharacter (digit_char d)"
proof
  assume d: "d < 10" and "isSyntaxCharacter (digit_char d)"
  from syntax_codes [OF this(2)] d show False
    by (simp add: digit_char_def)
qed

lemma show_nat_literal: "regex_literal (show_nat n)"
proof (induction n rule: show_nat.induct)
  case (1 n)
  show ?case
  proof (cases "n < 10")
    case True
    then show ?thesis
      by (subst show_nat.simps) (simp add: regex_literal_def digit_char_literal)
  next
    case False
    with 1 have "regex_literal (show_nat (n div 10))" by simp
    moreover have "\<not> isSyntaxCharacter (digit_char (n mod 10))"
      by (rule digit_char_literal) simp
    ultimately show ?thesis using False
      by (subst show_nat.simps) (simp add: regex_literal_def)
  qed
qed

lemma regex_literal_append [simp]:
  "regex_literal (a @ b) \<longleftrightarrow> regex_literal a \<and> regex_literal b"
  by (auto simp: regex_literal_def)

lemma show_int_literal: "regex_literal (show_int i)"
  using show_nat_literal by (simp add: show_int_def regex_literal_def isSyntaxCharacter_def)

lemma marker_single_literal: "regex_literal (marker_single now)"
  using show_int_literal [of now]
  by (simp add: marker_single_def) (simp add: regex_literal_def isSyntaxCharacter_def)

lemma errorMarker_single_literal: "regex_literal (errorMarker_single now)"
  using show_int_literal [of now]
  by (simp add: errorMarker_single_def) (simp add: regex_literal_def isSyntaxCharacter_def)

lemma marker_multi_literal: "regex_literal i \<Longrightarrow> regex_literal (marker_multi i now)"
  using show_int_literal [of now]
  by (simp add: marker_multi_def) (simp add: regex_literal_def isSyntaxCharacter_def)

lemma errorMarker_multi_literal: "regex_literal i \<Longrightarrow> regex_literal (errorMarker_multi i now)"
  using show_int_literal [of now]
  by (simp add: errorMarker_multi_def) (simp add: regex_literal_def isSyntaxCharacter_def)

lemma fold_map_delete:
  "fold (\<lambda>i ss. map_delete ss i) ks xs = filter (\<lambda>p. fst p \<notin> set ks) xs"
  by (induction ks arbitrary: xs) (auto simp: map_delete_def intro: filter_cong)

lemma key_selected_iff:
  assumes "distinct (map fst xs)" and "p \<in> set xs"
  shows "fst p \<in> set (map fst (filter P xs)) \<longleftrightarrow> P p"
proof
  assume "fst p \<in> set (map fst (filter P xs))"
  then obtain q where q: "q \<in> set xs" "P q" "fst q = fst p" by auto
  from assms q have "q = p"
    by (metis eq_key_imp_eq_value prod.collapse)
  with q show "P p" by simp
next
  assume "P p"
  with assms(2) show "fst p \<in> set (map fst (filter P xs))" by force
qed

lemma sweep_filter:
  assumes d: "distinct (map fst xs)"
    and f1: "\<And>p. fst (f p) = fst p"
    and f2: "\<And>p. \<not> P p \<Longrightarrow> f p = p"
  shows "filter (\<lambda>p. fst p \<notin> set (map fst (filter P xs))) (map f xs) = filter (\<lambda>p. \<not> P p) xs"
proof -
  have "filter (\<lambda>p. fst p \<notin> set (map fst (filter P xs))) (map f xs)
      = map f (filter (\<lambda>p. fst p \<notin> set (map fst (filter P xs))) xs)"
    by (simp add: filter_map o_def f1)
  also have "filter (\<lambda>p. fst p \<notin> set (map fst (filter P xs))) xs = filter (\<lambda>p. \<not> P p) xs"
    by (rule filter_cong) (use key_selected_iff [OF d] in auto)
  also have "map f (filter (\<lambda>p. \<not> P p) xs) = filter (\<lambda>p. \<not> P p) xs"
    by (rule map_idI) (simp add: f2)
  finally show ?thesis .
qed

lemma cleanup_sessions:
  assumes d: "distinct (map fst (sessions m))"
  shows "sessions (cleanupInactiveSessions now maxAge m) =
         filter (\<lambda>p. \<not> stale now maxAge (snd p)) (sessions m)"
proof -
  let ?P = "\<lambda>p. stale now maxAge (snd p)"
  let ?f = "\<lambda>p. if stale now maxAge (snd p) then (fst p, kill (snd p)) else (fst p, snd p)"
  have "sessions (cleanupInactiveSessions now maxAge m)
        = filter (\<lambda>p. fst p \<notin> set (map fst (filter ?P (sessions m)))) (map ?f (sessions m))"
    unfolding cleanupInactiveSessions_def Let_def split_def fold_map_delete by simp
  also have "\<dots> = filter (\<lambda>p. \<not> ?P p) (sessions m)"
    by (rule sweep_filter [OF d]) auto
  finally show ?thesis .
qed

lemma has_nonempty: "manager_ok m \<Longrightarrow> map_has (sessions m) i \<Longrightarrow> i \<noteq> []"
  by (auto simp: manager_ok_def map_has_def dest!: map_of_SomeD) (metis fst_conv image_eqI)

lemma map_set_keys:
  "map fst (map_set xs k v) = (if k \<in> set (map fst xs) then map fst xs else map fst xs @ [k])"
  by (induction xs) auto

lemma show_nat_nonempty: "show_nat n \<noteq> []"
  by (subst show_nat.simps) simp

lemma manager_ok_init: "manager_ok TerminalManager"
  by (simp add: manager_ok_def TerminalManager_def)

lemma map_set_key_set: "fst ` set (map_set xs k v) = insert k (fst ` set xs)"
  by (induction xs) auto

lemma map_set_distinct: "distinct (map fst xs) \<Longrightarrow> distinct (map fst (map_set xs k v))"
  by (induction xs) (auto simp: map_set_key_set)

lemma manager_ok_map_set:
  "manager_ok m \<Longrightarrow> k \<noteq> [] \<Longrightarrow> manager_ok (m\<lparr> sessions := map_set (sessions m) k v \<rparr>)"
  by (simp add: manager_ok_def map_set_distinct map_set_key_set)

lemma manager_ok_nextId: "manager_ok (m\<lparr> nextId := n \<rparr>) = manager_ok m"
  by (simp add: manager_ok_def)

lemma manager_ok_createSession:
  assumes ok: "manager_ok m" and c: "createSession h now opts m = (r, m')"
  shows "manager_ok m'"
proof -
  let ?g = "''terminal_'' @ show_nat (nextId m)"
  let ?m1 = "m\<lparr> nextId := nextId m + 1 \<rparr>"
  have g: "?g \<noteq> []" by simp
  have ok1: "manager_ok ?m1" using ok by (simp add: manager_ok_def)
  have s1: "sessions ?m1 = sessions m" by simp
  consider (given) i where "opt_id opts = Some i" "i \<noteq> []"
    | (gen) "opt_id opts = None \<or> opt_id opts = Some []"
    by (cases "opt_id opts") auto
  then show ?thesis
  proof cases
    case given
    with c have "m' = m \<or> m' = m\<lparr> sessions := map_set (sessions m) i (TerminalSession h now i opts) \<rparr>"
      by (auto simp: createSession_def Let_def split: if_splits)
    with ok given(2) manager_ok_map_set show ?thesis by auto
  next
    case gen
    with c have "m' = ?m1 \<or>
        m' = ?m1\<lparr> sessions := map_set (sessions ?m1) ?g (TerminalSession h now ?g opts) \<rparr>"
      by (auto simp: createSession_def Let_def split: if_splits)
    with ok1 manager_ok_map_set [OF ok1 g] show ?thesis by auto
  qed
qed

lemma manager_ok_closeSession:
  assumes ok: "manager_ok m" and c: "closeSession m i = (b, m')"
  shows "manager_ok m'"
proof (cases "map_of (sessions m) i")
  case None
  with c ok show ?thesis by (simp add: closeSession_def)
next
  case (Some s)
  with c have m': "m' = m\<lparr> sessions := map_delete (map_set (sessions m) i (kill s)) i \<rparr>"
    by (simp add: closeSession_def)
  from Some have "i \<in> fst ` set (sessions m)" by (metis map_of_eq_None_iff option.distinct(1))
  then have ks: "fst ` set (map_set (sessions m) i (kill s)) = fst ` set (sessions m)"
    by (auto simp: map_set_key_set)
  have d: "distinct (map fst (map_set (sessions m) i (kill s)))"
    using ok by (simp add: manager_ok_def map_set_distinct)
  have "fst ` set (filter (\<lambda>p. fst p \<noteq> i) (map_set (sessions m) i (kill s)))
        \<subseteq> fst ` set (sessions m)"
    using ks by auto
  with ok d show ?thesis
    unfolding m' by (auto simp: manager_ok_def map_delete_def distinct_map_filter)
qed

lemma manager_ok_cleanup:
  "manager_ok m \<Longrightarrow> manager_ok (cleanupInactiveSessions now maxAge m)"
  by (auto simp: manager_ok_def cleanup_sessions distinct_map_filter)


lemma deliver_p_consistent: "consistent_p c \<Longrightarrow> consistent_p (deliver_p m e c)"
  by (cases e)
     (auto simp: consistent_p_def onMainTimeout_def checkOutput_def cleanup_def Let_def
                 clearTimeout_def)

lemma run_p_append: "run_p m (xs @ ys) c = run_p m ys (run_p m xs c)"
  by (simp add: run_p_def)

lemma run_p_consistent: "consistent_p c \<Longrightarrow> consistent_p (run_p m evs c)"
  unfolding run_p_def by (induction evs arbitrary: c) (auto intro: deliver_p_consistent)

lemma deliver_p_completed:
  "completed_p c \<Longrightarrow> completed_p (deliver_p m e c) \<and> resolved_p (deliver_p m e c) = resolved_p c"
  by (cases e) (auto simp: onMainTimeout_def checkOutput_def Let_def)

lemma run_p_completed:
  "completed_p c \<Longrightarrow> completed_p (run_p m evs c) \<and> resolved_p (run_p m evs c) = resolved_p c"
  unfolding run_p_def
proof (induction evs arbitrary: c)
  case Nil
  then show ?case by simp
next
  case (Cons e evs)
  from deliver_p_completed [OF Cons.prems, of m e] Cons.IH [of "deliver_p m e c"]
  show ?case by simp
qed

lemma deliver_p_timer_gone:
  "timeoutId_p c \<noteq> Pending \<or> e = MainTimeout \<Longrightarrow> timeoutId_p (deliver_p m e c) \<noteq> Pending"
  by (cases e)
     (auto simp: onMainTimeout_def checkOutput_def cleanup_def Let_def clearTimeout_def)

lemma run_p_timer_gone:
  "timeoutId_p c \<noteq> Pending \<or> MainTimeout \<in> set evs \<Longrightarrow> timeoutId_p (run_p m evs c) \<noteq> Pending"
  unfolding run_p_def
proof (induction evs arbitrary: c)
  case Nil
  then show ?case by simp
next
  case (Cons e evs)
  show ?case
  proof (cases "timeoutId_p c \<noteq> Pending \<or> e = MainTimeout")
    case True
    from deliver_p_timer_gone [OF True, of m] Cons.IH [of "deliver_p m e c"]
    show ?thesis by simp
  next
    case False
    with Cons.prems have "MainTimeout \<in> set evs" by auto
    with Cons.IH [of "deliver_p m e c"] show ?thesis by simp
  qed
qed

lemma consistent_polling0: "consistent_p polling0"
  by (simp add: consistent_p_def polling0_def)

lemma exactly_once_run_p:
  "length (resolved_p (run_p m (evs1 @ evs2) polling0)) \<le> 1 \<and>
   (resolved_p (run_p m evs1 polling0) \<noteq> [] \<longrightarrow>
      resolved_p (run_p m (evs1 @ evs2) polling0) = resolved_p (run_p m evs1 polling0)) \<and>
   (MainTimeout \<in> set (evs1 @ evs2) \<longrightarrow> length (resolved_p (run_p m (evs1 @ evs2) polling0)) = 1)"
proof -
  let ?c1 = "run_p m evs1 polling0"
  let ?c2 = "run_p m (evs1 @ evs2) polling0"
  have k1: "consistent_p ?c1" by (rule run_p_consistent [OF consistent_polling0])
  have k2: "consistent_p ?c2" by (rule run_p_consistent [OF consistent_polling0])
  have a: "length (resolved_p ?c2) \<le> 1" using k2 by (simp add: consistent_p_def)
  have b: "resolved_p ?c1 \<noteq> [] \<longrightarrow> resolved_p ?c2 = resolved_p ?c1"
  proof
    assume "resolved_p ?c1 \<noteq> []"
    with k1 have "completed_p ?c1" by (auto simp: consistent_p_def)
    from run_p_completed [OF this, of m evs2] show "resolved_p ?c2 = resolved_p ?c1"
      by (simp add: run_p_append)
  qed
  have c: "MainTimeout \<in> set (evs1 @ evs2) \<longrightarrow> length (resolved_p ?c2) = 1"
  proof
    assume "MainTimeout \<in> set (evs1 @ evs2)"
    then have "timeoutId_p ?c2 \<noteq> Pending" by (intro run_p_timer_gone) blast
    with k2 have "resolved_p ?c2 \<noteq> []" by (auto simp: consistent_p_def)
    with a show "length (resolved_p ?c2) = 1" by (cases "resolved_p ?c2") auto
  qed
  from a b c show ?thesis by blast
qed

lemma run_p_misses:
  assumes "all_checks_miss m (chunks c) evs" "listeners_attached c"
  shows "run_p m evs c =
         c\<lparr> chunks := chunks c @ stdout_chunks evs, errorChunks := errorChunks c @ stderr_chunks evs \<rparr>"
  using assms unfolding run_p_def
proof (induction evs arbitrary: c)
  case Nil
  then show ?case by simp
next
  case (Cons e evs)
  show ?case
  proof (cases e)
    case (StdoutChunk d)
    let ?c1 = "c\<lparr> chunks := chunks c @ [d] \<rparr>"
    from Cons.prems StdoutChunk have "all_checks_miss m (chunks ?c1) evs" "listeners_attached ?c1"
      by simp_all
    from Cons.IH [OF this] Cons.prems(2) StdoutChunk show ?thesis by simp
  next
    case (StderrChunk d)
    let ?c1 = "c\<lparr> errorChunks := errorChunks c @ [d] \<rparr>"
    from Cons.prems StderrChunk have "all_checks_miss m (chunks ?c1) evs" "listeners_attached ?c1"
      by simp_all
    from Cons.IH [OF this] Cons.prems(2) StderrChunk show ?thesis by simp
  next
    case MainTimeout
    with Cons.prems show ?thesis by simp
  next
    case CheckTick
    with Cons.prems have n: "\<not> str_includes (concat (chunks c)) m" and q: "all_checks_miss m (chunks c) evs"
      by simp_all
    from n have "deliver_p m CheckTick c = c" by (simp add: checkOutput_def Let_def)
    with Cons.IH [OF q Cons.prems(2)] CheckTick show ?thesis by simp
  next
    case CheckStop
    with Cons.prems show ?thesis by simp
  qed
qed

lemma await_p_marker:
  assumes "all_checks_miss m [] pre" "str_includes (concat (stdout_chunks pre)) m"
  shows "await_p m (pre @ CheckTick # post) =
         Fulfilled \<lparr> success = True, stdout = trim (strip_first m (concat (stdout_chunks pre))),
                stderr = concat (stderr_chunks pre), exitCode = 0, error = None \<rparr>"
proof -
  let ?c1 = "polling0\<lparr> chunks := stdout_chunks pre, errorChunks := stderr_chunks pre \<rparr>"
  have 1: "run_p m pre polling0 = ?c1"
    using run_p_misses [of m polling0 pre] assms(1) by (simp add: polling0_def)
  let ?c2 = "deliver_p m CheckTick ?c1"
  have 2: "completed_p ?c2"
    "resolved_p ?c2 = [\<lparr> success = True, stdout = trim (strip_first m (concat (stdout_chunks pre))),
                stderr = concat (stderr_chunks pre), exitCode = 0, error = None \<rparr>]"
    using assms(2) by (simp_all add: checkOutput_def cleanup_def Let_def polling0_def)
  have "run_p m ((pre @ CheckTick # post) @ [MainTimeout]) polling0
        = run_p m (post @ [MainTimeout]) ?c2"
    using 1 by (simp add: run_p_def)
  with run_p_completed [OF 2(1), of m "post @ [MainTimeout]"] 2(2)
  show ?thesis by (simp add: await_p_def)
qed

lemma str_includes_Nil: "str_includes s []"
  by (induction s) auto

lemma strip_all_absent: "\<not> str_includes s m \<Longrightarrow> strip_all m s = s"
  by (induction s) auto

lemma strip_first_once:
  "\<not> str_includes (strip_first m s) m \<Longrightarrow> strip_all m s = strip_first m s"
proof (induction s)
  case Nil
  then show ?case by simp
next
  case (Cons c cs)
  have ne: "m \<noteq> []" using Cons.prems str_includes_Nil by auto
  show ?case
  proof (cases "prefix m (c # cs)")
    case True
    with Cons.prems have "\<not> str_includes (drop (length m) (c # cs)) m" by simp
    then have "strip_all m (drop (length m) (c # cs)) = drop (length m) (c # cs)"
      by (rule strip_all_absent)
    with True ne show ?thesis by simp
  next
    case False
    with Cons.prems have "\<not> str_includes (strip_first m cs) m" by simp
    with Cons.IH False show ?thesis by simp
  qed
qed

lemma dropWhile_self: "xs = [] \<or> \<not> P (hd xs) \<Longrightarrow> dropWhile P xs = xs"
  by (cases xs) auto

lemma trim_head: "trim s = [] \<or> \<not> isWhiteSpace (hd (trim s))"
proof -
  let ?a = "dropWhile isWhiteSpace s"
  have a: "?a = [] \<or> \<not> isWhiteSpace (hd ?a)" using hd_dropWhile [of isWhiteSpace s] by blast
  have "?a = trim s @ rev (takeWhile isWhiteSpace (rev ?a))"
    unfolding trim_def by (metis rev_append rev_rev_ident takeWhile_dropWhile_id)
  then have h: "trim s \<noteq> [] \<Longrightarrow> hd (trim s) = hd ?a" by (metis hd_append2)
  show ?thesis
  proof (cases "?a = []")
    case True
    then have "trim s = []" unfolding trim_def by (simp only: rev.simps dropWhile.simps)
    then show ?thesis by simp
  next
    case False
    with a have "\<not> isWhiteSpace (hd ?a)" by blast
    with h show ?thesis by metis
  qed
qed

lemma trim_idem: "trim (trim s) = trim s"
proof -
  let ?r = "dropWhile isWhiteSpace (rev (dropWhile isWhiteSpace s))"
  have 1: "dropWhile isWhiteSpace (trim s) = trim s"
    by (rule dropWhile_self) (rule trim_head)
  have "?r = [] \<or> \<not> isWhiteSpace (hd ?r)"
    using hd_dropWhile [of isWhiteSpace "rev (dropWhile isWhiteSpace s)"] by blast
  then have 2: "dropWhile isWhiteSpace ?r = ?r" by (rule dropWhile_self)
  have "trim (trim s) = rev (dropWhile isWhiteSpace (rev (trim s)))"
    using 1 by (simp add: trim_def)
  also have "rev (trim s) = ?r" by (simp add: trim_def)
  finally show ?thesis using 2 by (simp add: trim_def)
qed

lemma await_p_total: "\<exists>r. await_p m evs = Fulfilled r"
proof -
  from exactly_once_run_p [of m evs "[MainTimeout]"]
  have "length (resolved_p (run_p m (evs @ [MainTimeout]) polling0)) = 1" by simp
  then show ?thesis by (cases "resolved_p (run_p m (evs @ [MainTimeout]) polling0)") (auto simp: await_p_def)
qed

lemma await_total:
  assumes "regex_literal m" "regex_literal em"
  shows "\<exists>r. await h m em evs = Fulfilled r"
proof -
  from exactly_once_run [OF assms, where h = h and ?evs1.0 = evs and ?evs2.0 = "[TimeoutFired]"]
  obtain c2 where "run h m em (evs @ [TimeoutFired]) pending0 = Inr c2" "length (resolved c2) = 1"
    by auto
  then show ?thesis by (cases "resolved c2") (auto simp: await_def)
qed

lemma executeCommand_session_facts:
  "\<exists>p. process (snd (executeCommand h w c s)) = Some p \<and> \<not> killed p \<and>
       isActive (snd (executeCommand h w c s))"
  by (cases "process s"; cases c)
     (auto simp: executeCommand_def Let_def initialize_def kill_def needs_shell_def stdin_write_def)

lemma executeCommand_fst:
  "fst (executeCommand h w (Some cmd) s) =
   await h (marker_multi (session_id s) (w_marker_now w))
           (errorMarker_multi (session_id s) (w_error_now w)) (w_events w)"
  by (simp add: executeCommand_def Let_def initialize_def kill_def)

lemma executeCommand_events_irrelevant:
  "snd (executeCommand h (w\<lparr> w_events := evs \<rparr>) c s) = snd (executeCommand h w c s)"
  by (cases c) (simp_all add: executeCommand_def Let_def initialize_def)

lemma executeCommandInShell_facts:
  "\<exists>p. shellProcess (snd (executeCommandInShell h w c sv)) = Some p \<and> \<not> killed p"
  by (cases "shellProcess sv")
     (auto simp: executeCommandInShell_def Let_def initializeShell_def needs_shell_def stdin_write_def)

lemma executeCommandInShell_fst:
  "fst (executeCommandInShell h w c sv) =
   await h (marker_single (w_marker_now w)) (errorMarker_single (w_error_now w)) (w_events w)"
  by (simp add: executeCommandInShell_def Let_def)

lemma executeCommandInShell_events_irrelevant:
  "snd (executeCommandInShell h (w\<lparr> w_events := evs \<rparr>) c sv) = snd (executeCommandInShell h w c sv)"
  by (simp add: executeCommandInShell_def Let_def initializeShell_def)

lemma executeCommand_p_fst:
  "fst (executeCommand_p w c sv) = await_p (marker_single (wp_now w)) (wp_events w)"
  by (simp add: executeCommand_p_def Let_def)


lemma catch_error_Fulfilled: "catch_error (Fulfilled r, st) = (Fulfilled r, st)"
  by (simp add: catch_error_def)

lemma catch_error_Unsettled: "catch_error (Unsettled y, st) = (Unsettled y, st)"
  by (simp add: catch_error_def)

lemma catch_error_snd: "snd (catch_error x) = snd x"
  by (cases x; cases "fst x") (auto simp: catch_error_def)

lemma catch_error_no_throw: "fst (catch_error x) \<noteq> Rejected e"
  by (cases x; cases "fst x") (auto simp: catch_error_def)


lemma CallTool_multi_no_throw: "fst (CallTool_multi h w1 w2 req m) \<noteq> Rejected e"
  by (simp add: CallTool_multi_def catch_error_no_throw)

lemma CallTool_single_no_throw: "fst (CallTool_single h w req sv) \<noteq> Rejected e"
  by (simp add: CallTool_single_def catch_error_no_throw)

lemma executeCommandInShell_Fulfilled:
  "\<exists>r sv'. executeCommandInShell h w c sv = (Fulfilled r, sv')"
proof -
  have "\<exists>r. await h (marker_single (w_marker_now w)) (errorMarker_single (w_error_now w)) (w_events w)
             = Fulfilled r"
    by (rule await_total [OF marker_single_literal errorMarker_single_literal])
  then obtain r where "fst (executeCommandInShell h w c sv) = Fulfilled r"
    by (auto simp: executeCommandInShell_fst)
  then show ?thesis by (cases "executeCommandInShell h w c sv") auto
qed












lemma manager_ok_map_set_present:
  assumes "manager_ok m" "map_of (sessions m) k = Some s"
  shows "manager_ok (m\<lparr> sessions := map_set (sessions m) k v \<rparr>)"
proof -
  from assms(2) have "k \<in> fst ` set (sessions m)"
    by (metis map_of_eq_None_iff option.distinct(1))
  with assms(1) have "k \<noteq> []" unfolding manager_ok_def by (metis list.set_map)
  with assms(1) show ?thesis by (rule manager_ok_map_set)
qed

lemma manager_ok_execute_command:
  assumes "manager_ok m"
  shows "manager_ok (snd (execute_command h w1 w2 a m))"
proof (cases a)
  case None
  with assms show ?thesis by (simp add: execute_command_def)
next
  case (Some x)
  show ?thesis
  proof (cases "terminal_id x")
    case None
    with Some assms show ?thesis by (simp add: execute_command_def)
  next
    case i: (Some i)
    show ?thesis
    proof (cases "map_of (sessions m) i")
      case None
      with Some i assms show ?thesis by (simp add: execute_command_def getSession_def)
    next
      case s: (Some s)
      from Some i s
      have "snd (execute_command h w1 w2 a m) = m \<or>
            (\<exists>v. snd (execute_command h w1 w2 a m) = m\<lparr> sessions := map_set (sessions m) i v \<rparr>)"
        by (auto simp: execute_command_def getSession_def split: prod.splits settled.splits)
      with manager_ok_map_set_present [OF assms s] assms show ?thesis by auto
    qed
  qed
qed

lemma createSession_stored:
  "createSession h now opts m = (Inr s, m1) \<Longrightarrow> session_id s \<noteq> []"
  by (auto simp: createSession_def Let_def TerminalSession_def split: option.splits if_splits)

lemma manager_ok_create_terminal:
  assumes "manager_ok m"
  shows "manager_ok (snd (create_terminal h w a m))"
proof (cases "createSession h (w_created w) (options_of a) m")
  case (Pair x m1)
  from manager_ok_createSession [OF assms Pair] have ok1: "manager_ok m1" .
  show ?thesis
  proof (cases x)
    case (Inl e)
    with Pair ok1 show ?thesis by (simp add: create_terminal_def)
  next
    case (Inr s)
    with Pair have ne: "session_id s \<noteq> []" by (auto dest: createSession_stored)
    from Pair Inr
    have "\<exists>v. snd (create_terminal h w a m) = m1\<lparr> sessions := map_set (sessions m1) (session_id s) v \<rparr>"
      by (auto simp: create_terminal_def split: prod.splits settled.splits)
    with manager_ok_map_set [OF ok1 ne] show ?thesis by auto
  qed
qed

lemma manager_ok_closeAll: "manager_ok (closeAllSessions m)"
  by (simp add: closeAllSessions_def manager_ok_def)

lemma manager_ok_close_terminal:
  assumes "manager_ok m"
  shows "manager_ok (snd (close_terminal a m))"
proof (cases a)
  case None
  with assms show ?thesis by (simp add: close_terminal_def)
next
  case (Some x)
  show ?thesis
  proof (cases "terminal_id x")
    case None
    with Some assms show ?thesis by (simp add: close_terminal_def)
  next
    case i: (Some i)
    obtain b m1 where c: "closeSession m i = (b, m1)" by (cases "closeSession m i")
    with Some i have "snd (close_terminal a m) = m1" by (simp add: close_terminal_def)
    with manager_ok_closeSession [OF assms c] show ?thesis by simp
  qed
qed

lemma manager_ok_CallTool_multi:
  assumes "manager_ok m"
  shows "manager_ok (snd (CallTool_multi h w1 w2 req m))"
  using assms manager_ok_create_terminal [OF assms, of h w1 "arguments req"]
    manager_ok_execute_command [OF assms, of h w1 w2 "arguments req"]
    manager_ok_close_terminal [OF assms, of "arguments req"] manager_ok_closeAll [of m]
  by (auto simp: CallTool_multi_def catch_error_snd try_multi_def close_all_terminals_def)

lemma cdMatch_Some_iff:
  "cdMatch c = Some g \<longleftrightarrow>
     (\<exists>ws1 ws2. c = ws1 @ ''cd'' @ ws2 @ g \<and> list_all isWhiteSpace ws1 \<and> ws2 \<noteq> [] \<and>
        list_all isWhiteSpace ws2 \<and> (g = [] \<or> \<not> isWhiteSpace (hd g)) \<and>
        \<not> list_ex isLineTerminator g)"
proof
  assume a: "cdMatch c = Some g"
  let ?ws1 = "takeWhile isWhiteSpace c"
  let ?r1 = "dropWhile isWhiteSpace c"
  let ?r2 = "drop 2 ?r1"
  let ?ws2 = "takeWhile isWhiteSpace ?r2"
  from a have p: "prefix ''cd'' ?r1" and n: "?ws2 \<noteq> []" and g: "g = dropWhile isWhiteSpace ?r2"
    and l: "\<not> list_ex isLineTerminator g"
    by (auto simp: cdMatch_def Let_def split: if_splits)
  from p have r1: "?r1 = ''cd'' @ ?r2" by (auto simp: prefix_def)
  have "c = ?ws1 @ ?r1" by simp
  also have "?r1 = ''cd'' @ ?ws2 @ g" using r1 g by (metis takeWhile_dropWhile_id)
  finally have c: "c = ?ws1 @ ''cd'' @ ?ws2 @ g" .
  have w1: "list_all isWhiteSpace ?ws1" and w2: "list_all isWhiteSpace ?ws2"
    by (auto simp: list_all_iff dest: set_takeWhileD)
  have h: "g = [] \<or> \<not> isWhiteSpace (hd g)"
    unfolding g using hd_dropWhile [of isWhiteSpace ?r2] by blast
  from c w1 n w2 h l
  show "\<exists>ws1 ws2. c = ws1 @ ''cd'' @ ws2 @ g \<and> list_all isWhiteSpace ws1 \<and> ws2 \<noteq> [] \<and>
        list_all isWhiteSpace ws2 \<and> (g = [] \<or> \<not> isWhiteSpace (hd g)) \<and>
        \<not> list_ex isLineTerminator g"
    by blast
next
  assume "\<exists>ws1 ws2. c = ws1 @ ''cd'' @ ws2 @ g \<and> list_all isWhiteSpace ws1 \<and> ws2 \<noteq> [] \<and>
        list_all isWhiteSpace ws2 \<and> (g = [] \<or> \<not> isWhiteSpace (hd g)) \<and>
        \<not> list_ex isLineTerminator g"
  then obtain ws1 ws2 where c: "c = ws1 @ ''cd'' @ ws2 @ g" and w1: "list_all isWhiteSpace ws1"
    and n: "ws2 \<noteq> []" and w2: "list_all isWhiteSpace ws2"
    and h: "g = [] \<or> \<not> isWhiteSpace (hd g)" and l: "\<not> list_ex isLineTerminator g"
    by blast
  have nc: "\<not> isWhiteSpace CHR ''c''" by (simp add: isWhiteSpace_def)
  from w1 nc have d1: "dropWhile isWhiteSpace c = ''cd'' @ ws2 @ g"
    unfolding c by (simp add: dropWhile_append3 list_all_iff)
  from w2 h have t2: "takeWhile isWhiteSpace (ws2 @ g) = ws2" and d2: "dropWhile isWhiteSpace (ws2 @ g) = g"
    by (cases g; simp add: list_all_iff takeWhile_append2 dropWhile_append2)+
  from d1 t2 d2 n l show "cdMatch c = Some g"
    by (simp add: cdMatch_def Let_def)
qed

section \<open>The claims\<close>

text \<open>
  C5. The directory tracker maps \<open>("/tmp", "cd sub")\<close> to \<open>"/tmp/sub"\<close>, \<open>("/tmp/sub", "cd ..")\<close>
  to \<open>"/tmp"\<close>, \<open>("/tmp", "cd ~")\<close> to the home directory, \<open>("/tmp", 'cd "my dir"')\<close> to
  \<open>"/tmp/my dir"\<close> and \<open>("/tmp", "cd /abs/path")\<close> to \<open>"/abs/path"\<close>; a command that does not
  match the \<open>cd\<close> pattern leaves the tracked path unchanged.
\<close>

theorem updateWorkingDirectory_tracker:
  "updateWorkingDirectory h ''/tmp'' ''cd sub'' = ''/tmp/sub'' \<and>
   updateWorkingDirectory h ''/tmp/sub'' ''cd ..'' = ''/tmp'' \<and>
   updateWorkingDirectory h ''/tmp'' ''cd ~'' = homedir h \<and>
   updateWorkingDirectory h ''/tmp'' (''cd '' @ [CHR 0x22] @ ''my dir'' @ [CHR 0x22]) = ''/tmp/my dir'' \<and>
   updateWorkingDirectory h ''/tmp'' ''cd /abs/path'' = ''/abs/path'' \<and>
   (cdMatch cmd = None \<longrightarrow> updateWorkingDirectory h wd cmd = wd)"
proof -
  note defs = updateWorkingDirectory_def cdMatch_def isWhiteSpace_def isLineTerminator_def
      unquote_def trim_def startsWith_def endsWith_def path_isAbsolute_def suffix_to_prefix
  have 1: "updateWorkingDirectory h ''/tmp'' ''cd sub'' = ''/tmp/sub''"
    by (simp add: defs path_resolve_def normalizeString_def splitSlash_def)
  have 2: "updateWorkingDirectory h ''/tmp/sub'' ''cd ..'' = ''/tmp''"
    by (simp add: defs path_dirname_def)
  have 3: "updateWorkingDirectory h ''/tmp'' ''cd ~'' = homedir h"
    by (simp add: defs)
  have 4: "updateWorkingDirectory h ''/tmp'' (''cd '' @ [CHR 0x22] @ ''my dir'' @ [CHR 0x22]) = ''/tmp/my dir''"
    by (simp add: defs path_resolve_def normalizeString_def splitSlash_def slice_1_m1_def)
  have 5: "updateWorkingDirectory h ''/tmp'' ''cd /abs/path'' = ''/abs/path''"
    by (simp add: defs)
  have 6: "cdMatch cmd = None \<longrightarrow> updateWorkingDirectory h wd cmd = wd"
    by (simp add: updateWorkingDirectory_def)
  from 1 2 3 4 5 6 show ?thesis by blast
qed

theorem updateWorkingDirectory_tracker_witness:
  "cdMatch ''echo hello'' = None \<and>
   updateWorkingDirectory host0 ''/tmp'' ''echo hello'' = ''/tmp''"
proof -
  have n: "cdMatch ''echo hello'' = None"
    by (simp add: cdMatch_def isWhiteSpace_def)
  with updateWorkingDirectory_tracker
         [of host0 "''echo hello''" "''/tmp''"]
  show ?thesis by blast
qed

text \<open>
  C6, as stated, fails: a session that is not active is removed although its last activity
  lies within \<open>maxAge\<close>.
\<close>

theorem cleanupInactiveSessions_recent_counterexample:
  "map_of (sessions \<lparr> sessions = [(''s1'', fresh_session)], nextId = 1 \<rparr>) ''s1'' = Some fresh_session \<and>
   1000 - lastActivity fresh_session \<le> 3600000 \<and>
   map_of (sessions (cleanupInactiveSessions 1000 3600000
                       \<lparr> sessions = [(''s1'', fresh_session)], nextId = 1 \<rparr>)) ''s1'' = None"
  by (simp add: cleanupInactiveSessions_def stale_def fresh_session_def map_delete_def)

text \<open>
  C6, amended. The sweep removes exactly the sessions that are not active or whose last
  activity is more than \<open>maxAge\<close> ago, and leaves every other session, their order and the id
  counter as they were; so no active session whose last activity lies within \<open>maxAge\<close> is
  removed.
\<close>

theorem cleanupInactiveSessions_exact:
  assumes "manager_ok m"
  shows "cleanupInactiveSessions now maxAge m =
         m\<lparr> sessions := filter (\<lambda>(i, s). isActive s \<and> now - lastActivity s \<le> maxAge) (sessions m) \<rparr>"
proof -
  from assms have d: "distinct (map fst (sessions m))" by (simp add: manager_ok_def)
  have "filter (\<lambda>p. \<not> stale now maxAge (snd p)) (sessions m) =
        filter (\<lambda>(i, s). isActive s \<and> now - lastActivity s \<le> maxAge) (sessions m)"
    by (rule filter_cong) (auto simp: stale_def)
  with cleanup_sessions [OF d, of now maxAge]
  have "sessions (cleanupInactiveSessions now maxAge m) =
        filter (\<lambda>(i, s). isActive s \<and> now - lastActivity s \<le> maxAge) (sessions m)" by simp
  moreover have "nextId (cleanupInactiveSessions now maxAge m) = nextId m"
    by (simp add: cleanupInactiveSessions_def Let_def)
  ultimately show ?thesis by simp
qed

theorem cleanupInactiveSessions_exact_witness:
  "manager_ok \<lparr> sessions = [(''s1'', fresh_session), (''s2'', live_session)], nextId = 3 \<rparr> \<and>
   cleanupInactiveSessions 1000 3600000
     \<lparr> sessions = [(''s1'', fresh_session), (''s2'', live_session)], nextId = 3 \<rparr> =
   \<lparr> sessions = [(''s2'', live_session)], nextId = 3 \<rparr>"
proof -
  have ok: "manager_ok \<lparr> sessions = [(''s1'', fresh_session), (''s2'', live_session)], nextId = 3 \<rparr>"
    by (simp add: manager_ok_def)
  from cleanupInactiveSessions_exact [OF ok, of 1000 3600000] ok
  show ?thesis by (simp add: fresh_session_def live_session_def)
qed

text \<open>
  C7. Creating a session under an id that the registry already holds fails with the
  duplicate-session error and leaves the registry as it was.
\<close>

theorem createSession_duplicate:
  assumes "manager_ok m" and "map_has (sessions m) i"
  shows "createSession h now (opts\<lparr> opt_id := Some i \<rparr>) m =
         (Inl (Error (''Terminal session '' @ quoted i @ '' already exists'')), m)"
proof -
  from assms have "i \<noteq> []" by (rule has_nonempty)
  with assms(2) show ?thesis by (simp add: createSession_def)
qed

theorem createSession_duplicate_witness:
  "manager_ok \<lparr> sessions = [(''s1'', fresh_session)], nextId = 1 \<rparr> \<and>
   map_has (sessions \<lparr> sessions = [(''s1'', fresh_session)], nextId = 1 \<rparr>) ''s1'' \<and>
   createSession host0 2000
     \<lparr> opt_id = Some ''s1'', opt_cwd = None, opt_shell = None, opt_shellArgs = None, opt_env = [] \<rparr>
     \<lparr> sessions = [(''s1'', fresh_session)], nextId = 1 \<rparr> =
   (Inl (Error ''Terminal session 's1' already exists''),
    \<lparr> sessions = [(''s1'', fresh_session)], nextId = 1 \<rparr>)"
proof -
  have ok: "manager_ok \<lparr> sessions = [(''s1'', fresh_session)], nextId = 1 \<rparr>"
    by (simp add: manager_ok_def)
  have has: "map_has (sessions \<lparr> sessions = [(''s1'', fresh_session)], nextId = 1 \<rparr>) ''s1''"
    by (simp add: map_has_def)
  from createSession_duplicate [OF ok has, of
      host0
      2000
      "\<lparr> opt_id = Some ''s1'', opt_cwd = None, opt_shell = None, opt_shellArgs = None, opt_env = [] \<rparr>"]
    ok has
  show ?thesis by (simp add: quoted_def)
qed

text \<open>
  C1, on the code. In the multi-session and in the single-session variant the test is made
  on the chunk that has just arrived: when the marker is cut between two chunks, the text
  collected so far holds the marker, and the command still ends by its timeout, as a failure.
\<close>

theorem split_marker_times_out:
  "str_includes (stdout_of (w_events split_world)) (marker_multi ''s2'' 1700) \<and>
   fst (executeCommand host0 split_world (Some ''echo hello'') live_session) =
     Fulfilled (timeout_outcome (''hello'' @ nl @ ''__COMMAND_COMPLETE_s2_1700__'' @ nl) []) \<and>
   str_includes (stdout_of (w_events split_world_single)) (marker_single 1700) \<and>
   fst (executeCommandInShell host0 split_world_single (Some ''echo hello'') server0) =
     Fulfilled (timeout_outcome (''hello'' @ nl @ ''__COMMAND_COMPLETE_1700__'' @ nl) [])"
  by code_simp

theorem split_marker_times_out_witness:
  "fst (executeCommand host0 split_world (Some ''echo hello'') live_session) =
     Fulfilled \<lparr> success = False,
                 stdout = ''hello'' @ nl @ ''__COMMAND_COMPLETE_s2_1700__'' @ nl,
                 stderr = CHR 0x0A # ''Command timed out'',
                 exitCode = - 1, error = Some ''Command timed out'' \<rparr>"
  using split_marker_times_out by (simp add: timeout_outcome_def)

text \<open>
  C2, on the code. In the multi-session variant the marker is built from the session id and
  handed to \<^verbatim>\<open>new RegExp\<close> as it is. For the session id \<open>a(b\<close> the chunk that holds the marker
  makes the listener set \<^verbatim>\<open>completed\<close> and clear the timer, and then throw when the \<^verbatim>\<open>RegExp\<close> is
  constructed: \<^verbatim>\<open>resolve\<close> is not called, by the listener or by the timer, and the promise
  never settles.
\<close>

theorem unescaped_marker_never_resolves:
  "str_includes (stdout_of (w_events paren_world))
     (marker_multi (session_id paren_session) (w_marker_now paren_world)) \<and>
   run host0 (marker_multi ''a(b'' 1700) (errorMarker_multi ''a(b'' 1701)
     (w_events paren_world @ [TimeoutFired]) pending0 =
     Inl (Error ''Invalid regular expression: /__COMMAND_COMPLETE_a(b_1700__/g: Unterminated group'') \<and>
   fst (executeCommand host0 paren_world (Some ''echo hi'') paren_session) =
     Unsettled (Some (Error
       ''Invalid regular expression: /__COMMAND_COMPLETE_a(b_1700__/g: Unterminated group''))"
  by code_simp

theorem unescaped_marker_never_resolves_witness:
  "(case fst (executeCommand host0 paren_world (Some ''echo hi'') paren_session) of
      Fulfilled r \<Rightarrow> False | Rejected e \<Rightarrow> False | Unsettled y \<Rightarrow> True)"
  using unescaped_marker_never_resolves by simp

text \<open>
  C3. When the timer fires before a chunk with the marker has arrived, the command resolves
  as a failure with exit code \<open>-1\<close>, the text collected so far as its output, the text
  collected on the error stream followed by the notice \<open>Command timed out\<close>, and that notice as
  its error. The shell of the session is in place and not killed after the call, and what
  the call leaves of the session does not depend on the events. This holds in the
  multi-session and in the single-session variant.
\<close>

theorem timeout_keeps_output_and_shell:
  "(no_marker_chunk (marker_multi (session_id s) (w_marker_now w)) (before_timeout (w_events w)) \<longrightarrow>
      fst (executeCommand h w (Some cmd) s) =
        Fulfilled \<lparr> success = False, stdout = stdout_of (before_timeout (w_events w)),
                    stderr = stderr_of (before_timeout (w_events w)) @ CHR 0x0A # ''Command timed out'',
                    exitCode = - 1, error = Some ''Command timed out'' \<rparr> \<and>
      (\<exists>p. process (snd (executeCommand h w (Some cmd) s)) = Some p \<and> \<not> killed p) \<and>
      snd (executeCommand h (w\<lparr> w_events := evs \<rparr>) (Some cmd) s) =
        snd (executeCommand h w (Some cmd) s)) \<and>
   (no_marker_chunk (marker_single (w_marker_now w)) (before_timeout (w_events w)) \<longrightarrow>
      fst (executeCommandInShell h w c sv) =
        Fulfilled \<lparr> success = False, stdout = stdout_of (before_timeout (w_events w)),
               stderr = stderr_of (before_timeout (w_events w)) @ CHR 0x0A # ''Command timed out'',
               exitCode = - 1, error = Some ''Command timed out'' \<rparr> \<and>
      (\<exists>p. shellProcess (snd (executeCommandInShell h w c sv)) = Some p \<and> \<not> killed p) \<and>
      snd (executeCommandInShell h (w\<lparr> w_events := evs \<rparr>) c sv) =
        snd (executeCommandInShell h w c sv))"
proof -
  have multi: "no_marker_chunk (marker_multi (session_id s) (w_marker_now w)) (before_timeout (w_events w)) \<longrightarrow>
      fst (executeCommand h w (Some cmd) s) =
        Fulfilled \<lparr> success = False, stdout = stdout_of (before_timeout (w_events w)),
                    stderr = stderr_of (before_timeout (w_events w)) @ CHR 0x0A # ''Command timed out'',
                    exitCode = - 1, error = Some ''Command timed out'' \<rparr>"
    by (simp add: executeCommand_fst await_timeout timeout_outcome_def)
  have single: "no_marker_chunk (marker_single (w_marker_now w)) (before_timeout (w_events w)) \<longrightarrow>
      fst (executeCommandInShell h w c sv) =
        Fulfilled \<lparr> success = False, stdout = stdout_of (before_timeout (w_events w)),
               stderr = stderr_of (before_timeout (w_events w)) @ CHR 0x0A # ''Command timed out'',
               exitCode = - 1, error = Some ''Command timed out'' \<rparr>"
    by (simp add: executeCommandInShell_fst await_timeout timeout_outcome_def)
  from executeCommand_session_facts [of h w "Some cmd" s]
  have alive: "\<exists>p. process (snd (executeCommand h w (Some cmd) s)) = Some p \<and> \<not> killed p"
    by blast
  from multi single alive executeCommandInShell_facts [of h w c sv]
    executeCommand_events_irrelevant [where h = h and w = w and evs = evs and c = "Some cmd" and s = s]
    executeCommandInShell_events_irrelevant [where h = h and w = w and evs = evs and c = c and sv = sv]
  show ?thesis by blast
qed

theorem timeout_keeps_output_and_shell_witness:
  "no_marker_chunk (marker_multi (session_id live_session) (w_marker_now split_world))
     (before_timeout (w_events split_world)) \<and>
   no_marker_chunk (marker_single (w_marker_now split_world_single))
     (before_timeout (w_events split_world_single)) \<and>
   fst (executeCommand host0 split_world (Some ''echo hello'') live_session) =
     Fulfilled \<lparr> success = False, stdout = stdout_of (before_timeout (w_events split_world)),
            stderr = stderr_of (before_timeout (w_events split_world)) @
                     CHR 0x0A # ''Command timed out'',
            exitCode = - 1, error = Some ''Command timed out'' \<rparr> \<and>
   fst (executeCommandInShell host0 split_world_single (Some ''echo hello'') server0) =
     Fulfilled \<lparr> success = False, stdout = stdout_of (before_timeout (w_events split_world_single)),
            stderr = stderr_of (before_timeout (w_events split_world_single)) @
                     CHR 0x0A # ''Command timed out'',
            exitCode = - 1, error = Some ''Command timed out'' \<rparr>"
proof -
  have a: "no_marker_chunk (marker_multi (session_id live_session) (w_marker_now split_world))
     (before_timeout (w_events split_world))"
    by code_simp
  have b: "no_marker_chunk (marker_single (w_marker_now split_world_single))
     (before_timeout (w_events split_world_single))"
    by code_simp
  from timeout_keeps_output_and_shell
         [where s = live_session and w = split_world and h = host0 and cmd = "''echo hello''"] a
  have 1: "fst (executeCommand host0 split_world (Some ''echo hello'') live_session) =
        Fulfilled \<lparr> success = False, stdout = stdout_of (before_timeout (w_events split_world)),
                    stderr = stderr_of (before_timeout (w_events split_world)) @ CHR 0x0A # ''Command timed out'',
                    exitCode = - 1, error = Some ''Command timed out'' \<rparr>"
    by blast
  from timeout_keeps_output_and_shell
         [where w = split_world_single and h = host0 and c = "Some ''echo hello''" and sv = server0] b
  have 2: "fst (executeCommandInShell host0 split_world_single (Some ''echo hello'') server0) =
     Fulfilled \<lparr> success = False, stdout = stdout_of (before_timeout (w_events split_world_single)),
            stderr = stderr_of (before_timeout (w_events split_world_single)) @
                     CHR 0x0A # ''Command timed out'',
            exitCode = - 1, error = Some ''Command timed out'' \<rparr>"
    by blast
  from a b 1 2 show ?thesis by blast
qed

text \<open>
  C4, as stated, fails. In the first variant a second occurrence of the marker stays in the
  output, and the error text is returned as it was collected, not trimmed. In the
  multi-session variant, for the session id \<open>a(b\<close>, the marker is observed and the command
  does not resolve at all.
\<close>

theorem marker_cleanup_counterexample:
  "fst (executeCommand_p twice_world (Some ''echo a'') server_p0) =
     Fulfilled \<lparr> success = True, stdout = ''a __COMMAND_COMPLETE_1700__'', stderr = '' warn '',
            exitCode = 0, error = None \<rparr> \<and>
   str_includes ''a __COMMAND_COMPLETE_1700__'' (marker_single (wp_now twice_world)) \<and>
   trim '' warn '' \<noteq> '' warn '' \<and>
   str_includes (stdout_of (w_events paren_world))
     (marker_multi (session_id paren_session) (w_marker_now paren_world)) \<and>
   fst (executeCommand host0 paren_world (Some ''echo hi'') paren_session) =
     Unsettled (Some (Error
       ''Invalid regular expression: /__COMMAND_COMPLETE_a(b_1700__/g: Unterminated group''))"
  by code_simp

text \<open>
  C4, amended. In the multi-session variant, for a session id without RegExp syntax
  characters, and in the single-session variant: when a chunk that holds the marker arrives
  before the timer fires, and no earlier chunk held it, the command resolves successfully
  with exit code 0, its output is the collected text with every occurrence of the completion
  marker removed, then trimmed, and its error text is the collected error text with every
  occurrence of the error marker removed, then trimmed. In the first variant: when a check
  finds the marker in the collected chunks before a timer fires, and no earlier check found
  it, the command resolves successfully with exit code 0, its error text is the collected
  error text as it is, its output is trimmed, and, when the marker occurs once in the
  collected output, its output is the collected output with the marker removed, then
  trimmed.
\<close>

theorem marker_resolves_with_clean_output:
  "(regex_literal (session_id s) \<and> w_events w = pre @ StdoutData d # post \<and>
    no_marker_chunk (marker_multi (session_id s) (w_marker_now w)) pre \<and> TimeoutFired \<notin> set pre \<and>
    str_includes d (marker_multi (session_id s) (w_marker_now w)) \<longrightarrow>
      fst (executeCommand h w (Some cmd) s) =
        Fulfilled \<lparr> success = True,
                    stdout = trim (strip_all (marker_multi (session_id s) (w_marker_now w))
                                     (stdout_of pre @ d)),
                    stderr = trim (strip_all (errorMarker_multi (session_id s) (w_error_now w))
                                     (stderr_of pre)),
                    exitCode = 0, error = None \<rparr>) \<and>
   (w_events w = pre @ StdoutData d # post \<and>
    no_marker_chunk (marker_single (w_marker_now w)) pre \<and> TimeoutFired \<notin> set pre \<and>
    str_includes d (marker_single (w_marker_now w)) \<longrightarrow>
      fst (executeCommandInShell h w c sv) =
        Fulfilled \<lparr> success = True,
               stdout = trim (strip_all (marker_single (w_marker_now w)) (stdout_of pre @ d)),
               stderr = trim (strip_all (errorMarker_single (w_error_now w)) (stderr_of pre)),
               exitCode = 0, error = None \<rparr>) \<and>
   (wp_events wp = ppre @ CheckTick # ppost \<and>
    all_checks_miss (marker_single (wp_now wp)) [] ppre \<and>
    str_includes (concat (stdout_chunks ppre)) (marker_single (wp_now wp)) \<longrightarrow>
      (\<exists>r. fst (executeCommand_p wp c svp) = Fulfilled r \<and>
         success r \<and> exitCode r = 0 \<and> error r = None \<and>
         stderr r = concat (stderr_chunks ppre) \<and>
         trim (stdout r) = stdout r \<and>
         (occurs_once (marker_single (wp_now wp)) (concat (stdout_chunks ppre)) \<longrightarrow>
            stdout r = trim (strip_all (marker_single (wp_now wp)) (concat (stdout_chunks ppre))))))"
proof -
  have multi: "regex_literal (session_id s) \<and> w_events w = pre @ StdoutData d # post \<and>
    no_marker_chunk (marker_multi (session_id s) (w_marker_now w)) pre \<and> TimeoutFired \<notin> set pre \<and>
    str_includes d (marker_multi (session_id s) (w_marker_now w)) \<longrightarrow>
      fst (executeCommand h w (Some cmd) s) =
        Fulfilled \<lparr> success = True,
                    stdout = trim (strip_all (marker_multi (session_id s) (w_marker_now w))
                                     (stdout_of pre @ d)),
                    stderr = trim (strip_all (errorMarker_multi (session_id s) (w_error_now w))
                                     (stderr_of pre)),
                    exitCode = 0, error = None \<rparr>"
  proof
    assume a: "regex_literal (session_id s) \<and> w_events w = pre @ StdoutData d # post \<and>
      no_marker_chunk (marker_multi (session_id s) (w_marker_now w)) pre \<and> TimeoutFired \<notin> set pre \<and>
      str_includes d (marker_multi (session_id s) (w_marker_now w))"
    then have l: "regex_literal (marker_multi (session_id s) (w_marker_now w))"
      "regex_literal (errorMarker_multi (session_id s) (w_error_now w))"
      by (simp_all add: marker_multi_literal errorMarker_multi_literal)
    from a have q: "no_marker_chunk (marker_multi (session_id s) (w_marker_now w)) pre"
      and t: "TimeoutFired \<notin> set pre"
      and i: "str_includes d (marker_multi (session_id s) (w_marker_now w))"
      and e: "w_events w = pre @ StdoutData d # post" by simp_all
    from await_marker [OF q t i l, where post = post and h = h] e
    show "fst (executeCommand h w (Some cmd) s) =
        Fulfilled \<lparr> success = True,
                    stdout = trim (strip_all (marker_multi (session_id s) (w_marker_now w))
                                     (stdout_of pre @ d)),
                    stderr = trim (strip_all (errorMarker_multi (session_id s) (w_error_now w))
                                     (stderr_of pre)),
                    exitCode = 0, error = None \<rparr>"
      by (simp add: executeCommand_fst)
  qed
  have single: "w_events w = pre @ StdoutData d # post \<and>
    no_marker_chunk (marker_single (w_marker_now w)) pre \<and> TimeoutFired \<notin> set pre \<and>
    str_includes d (marker_single (w_marker_now w)) \<longrightarrow>
      fst (executeCommandInShell h w c sv) =
        Fulfilled \<lparr> success = True,
               stdout = trim (strip_all (marker_single (w_marker_now w)) (stdout_of pre @ d)),
               stderr = trim (strip_all (errorMarker_single (w_error_now w)) (stderr_of pre)),
               exitCode = 0, error = None \<rparr>"
  proof
    assume a: "w_events w = pre @ StdoutData d # post \<and>
      no_marker_chunk (marker_single (w_marker_now w)) pre \<and> TimeoutFired \<notin> set pre \<and>
      str_includes d (marker_single (w_marker_now w))"
    then have q: "no_marker_chunk (marker_single (w_marker_now w)) pre"
      and t: "TimeoutFired \<notin> set pre"
      and i: "str_includes d (marker_single (w_marker_now w))"
      and e: "w_events w = pre @ StdoutData d # post" by simp_all
    from await_marker [OF q t i marker_single_literal errorMarker_single_literal,
           where post = post and h = h and ?now1 = "w_error_now w"] e
    show "fst (executeCommandInShell h w c sv) =
        Fulfilled \<lparr> success = True,
               stdout = trim (strip_all (marker_single (w_marker_now w)) (stdout_of pre @ d)),
               stderr = trim (strip_all (errorMarker_single (w_error_now w)) (stderr_of pre)),
               exitCode = 0, error = None \<rparr>"
      by (simp add: executeCommandInShell_fst)
  qed
  have first: "wp_events wp = ppre @ CheckTick # ppost \<and>
    all_checks_miss (marker_single (wp_now wp)) [] ppre \<and>
    str_includes (concat (stdout_chunks ppre)) (marker_single (wp_now wp)) \<longrightarrow>
      (\<exists>r. fst (executeCommand_p wp c svp) = Fulfilled r \<and>
         success r \<and> exitCode r = 0 \<and> error r = None \<and>
         stderr r = concat (stderr_chunks ppre) \<and>
         trim (stdout r) = stdout r \<and>
         (occurs_once (marker_single (wp_now wp)) (concat (stdout_chunks ppre)) \<longrightarrow>
            stdout r = trim (strip_all (marker_single (wp_now wp)) (concat (stdout_chunks ppre)))))"
  proof
    let ?m = "marker_single (wp_now wp)"
    let ?out = "concat (stdout_chunks ppre)"
    assume a: "wp_events wp = ppre @ CheckTick # ppost \<and> all_checks_miss ?m [] ppre \<and>
      str_includes ?out ?m"
    let ?r = "\<lparr> success = True, stdout = trim (strip_first ?m ?out),
                stderr = concat (stderr_chunks ppre), exitCode = 0, error = None \<rparr>"
    from a await_p_marker [of ?m ppre ppost]
    have r: "fst (executeCommand_p wp c svp) = Fulfilled ?r"
      by (simp add: executeCommand_p_fst)
    have o: "occurs_once ?m ?out \<longrightarrow> stdout ?r = trim (strip_all ?m ?out)"
      by (simp add: occurs_once_def strip_first_once)
    have t: "trim (stdout ?r) = stdout ?r" by (simp add: trim_idem)
    from r o t show "\<exists>r. fst (executeCommand_p wp c svp) = Fulfilled r \<and>
         success r \<and> exitCode r = 0 \<and> error r = None \<and>
         stderr r = concat (stderr_chunks ppre) \<and>
         trim (stdout r) = stdout r \<and>
         (occurs_once ?m ?out \<longrightarrow> stdout r = trim (strip_all ?m ?out))"
      by (intro exI [of _ ?r]) simp
  qed
  from multi single first show ?thesis by blast
qed

theorem marker_resolves_with_clean_output_witness:
  "regex_literal (session_id live_session) \<and>
   fst (executeCommand host0 whole_world_multi (Some ''echo hi'') live_session) =
     Fulfilled \<lparr> success = True, stdout = ''hi'', stderr = ''warn'', exitCode = 0, error = None \<rparr> \<and>
   fst (executeCommandInShell host0 whole_world (Some ''echo hi'') server0) =
     Fulfilled \<lparr> success = True, stdout = ''hi'', stderr = ''warn'', exitCode = 0, error = None \<rparr> \<and>
   occurs_once (marker_single (wp_now polled_world))
     (concat (stdout_chunks (butlast (wp_events polled_world)))) \<and>
   (\<exists>r. fst (executeCommand_p polled_world (Some ''echo hi'') server_p0) = Fulfilled r \<and>
      success r \<and> exitCode r = 0 \<and> stderr r = '' warn '' \<and> stdout r = ''hi'')"
proof -
  have l: "regex_literal (session_id live_session)" by code_simp
  have m: "w_events whole_world_multi =
             [StderrData '' warn ''] @ StdoutData (''hi'' @ nl @ ''__COMMAND_COMPLETE_s2_1700__'' @ nl) # []"
    "no_marker_chunk (marker_multi (session_id live_session) (w_marker_now whole_world_multi)) [StderrData '' warn '']"
    "TimeoutFired \<notin> set [StderrData '' warn '']"
    "str_includes (''hi'' @ nl @ ''__COMMAND_COMPLETE_s2_1700__'' @ nl)
       (marker_multi (session_id live_session) (w_marker_now whole_world_multi))"
    by code_simp+
  have s: "w_events whole_world =
             [StderrData '' warn ''] @ StdoutData (''hi'' @ nl @ ''__COMMAND_COMPLETE_1700__'' @ nl) # []"
    "no_marker_chunk (marker_single (w_marker_now whole_world)) [StderrData '' warn '']"
    "TimeoutFired \<notin> set [StderrData '' warn '']"
    "str_includes (''hi'' @ nl @ ''__COMMAND_COMPLETE_1700__'' @ nl) (marker_single (w_marker_now whole_world))"
    by code_simp+
  let ?ppre = "[StdoutChunk (''hi'' @ nl @ ''__COMMAND_COMP''), CheckTick, StderrChunk '' warn '',
                    StdoutChunk (''LETE_1700__'' @ nl)]"
  have p: "wp_events polled_world = ?ppre @ CheckTick # []"
    "all_checks_miss (marker_single (wp_now polled_world)) [] ?ppre"
    "str_includes (concat (stdout_chunks ?ppre)) (marker_single (wp_now polled_world))"
    by code_simp+
  have o: "occurs_once (marker_single (wp_now polled_world)) (concat (stdout_chunks ?ppre))"
    by code_simp
  have b: "butlast (wp_events polled_world) = ?ppre" by code_simp
  have v: "trim (strip_all (marker_multi (session_id live_session) (w_marker_now whole_world_multi))
                  (stdout_of [StderrData '' warn ''] @ ''hi'' @ nl @ ''__COMMAND_COMPLETE_s2_1700__'' @ nl)) = ''hi''"
    "trim (strip_all (errorMarker_multi (session_id live_session) (w_error_now whole_world_multi))
                  (stderr_of [StderrData '' warn ''])) = ''warn''"
    "trim (strip_all (marker_single (w_marker_now whole_world))
                  (stdout_of [StderrData '' warn ''] @ ''hi'' @ nl @ ''__COMMAND_COMPLETE_1700__'' @ nl)) = ''hi''"
    "trim (strip_all (errorMarker_single (w_error_now whole_world)) (stderr_of [StderrData '' warn ''])) = ''warn''"
    "trim (strip_all (marker_single (wp_now polled_world)) (concat (stdout_chunks ?ppre))) = ''hi''"
    "concat (stderr_chunks ?ppre) = '' warn ''"
    by code_simp+
  from marker_resolves_with_clean_output
         [where s = live_session and w = whole_world_multi and pre = "[StderrData '' warn '']"
             and d = "''hi'' @ nl @ ''__COMMAND_COMPLETE_s2_1700__'' @ nl" and post = "[]"
             and h = host0 and cmd = "''echo hi''"] l m
  have 1: "fst (executeCommand host0 whole_world_multi (Some ''echo hi'') live_session) =
     Fulfilled \<lparr> success = True, stdout = ''hi'', stderr = ''warn'', exitCode = 0, error = None \<rparr>"
    unfolding v by blast
  from marker_resolves_with_clean_output
         [where w = whole_world and pre = "[StderrData '' warn '']"
             and d = "''hi'' @ nl @ ''__COMMAND_COMPLETE_1700__'' @ nl" and post = "[]"
             and h = host0 and c = "Some ''echo hi''" and sv = server0] s
  have 2: "fst (executeCommandInShell host0 whole_world (Some ''echo hi'') server0) =
     Fulfilled \<lparr> success = True, stdout = ''hi'', stderr = ''warn'', exitCode = 0, error = None \<rparr>"
    unfolding v by blast
  from marker_resolves_with_clean_output
         [where wp = polled_world and ppre = ?ppre and ppost = "[]" and c = "Some ''echo hi''"
             and svp = server_p0] p o
  have 3: "\<exists>r. fst (executeCommand_p polled_world (Some ''echo hi'') server_p0) = Fulfilled r \<and>
      success r \<and> exitCode r = 0 \<and> stderr r = '' warn '' \<and> stdout r = ''hi''"
    unfolding v by blast
  from l 1 2 3 o b show ?thesis by simp
qed

text \<open>
  C8, on the code. In the single-session variant the test is
  \<^verbatim>\<open>args.use_persistent_shell !== true\<close>: with the flag \<open>true\<close> the command goes to a one-shot
  \<^verbatim>\<open>exec\<close> and nothing is written to the persistent shell; with the flag \<open>false\<close>, as with the
  flag left out, the command is written to the persistent shell and no \<^verbatim>\<open>exec\<close> is made.
\<close>

theorem use_persistent_shell_inverted:
  "(case CallTool_single host0 whole_world
        \<lparr> name = ''execute_command'', arguments = Some (echo_args (Some True)) \<rparr> server0 of
      (Fulfilled r, sv) \<Rightarrow> Some (exec_calls sv, shellProcess sv) | _ \<Rightarrow> None) =
     Some ([(''echo hi'', ''/srv'')], shellProcess server0) \<and>
   (case CallTool_single host0 whole_world
        \<lparr> name = ''execute_command'', arguments = Some (echo_args (Some False)) \<rparr> server0 of
      (Fulfilled r, sv) \<Rightarrow> Some (exec_calls sv, shellProcess sv) | _ \<Rightarrow> None) =
     Some ([], Some \<lparr> pid = 7, killed = False,
                     stdin = shell_setup @
                       [''echo hi; echo '' @ [CHR 0x22] @ ''__COMMAND_COMPLETE_1700__'' @ [CHR 0x22, CHR 0x0A]] \<rparr>) \<and>
   (case CallTool_single host0 whole_world
        \<lparr> name = ''execute_command'', arguments = Some (echo_args None) \<rparr> server0 of
      (Fulfilled r, sv) \<Rightarrow> Some (exec_calls sv, shellProcess sv) | _ \<Rightarrow> None) =
     Some ([], Some \<lparr> pid = 7, killed = False,
                     stdin = shell_setup @
                       [''echo hi; echo '' @ [CHR 0x22] @ ''__COMMAND_COMPLETE_1700__'' @ [CHR 0x22, CHR 0x0A]] \<rparr>)"
  by code_simp

theorem use_persistent_shell_inverted_witness:
  "exec_calls (snd (CallTool_single host0 whole_world
        \<lparr> name = ''execute_command'', arguments = Some (echo_args (Some True)) \<rparr> server0)) =
     [(''echo hi'', ''/srv'')]"
proof -
  from use_persistent_shell_inverted
  have "(case CallTool_single host0 whole_world
        \<lparr> name = ''execute_command'', arguments = Some (echo_args (Some True)) \<rparr> server0 of
      (Fulfilled r, sv) \<Rightarrow> Some (exec_calls sv, shellProcess sv) | _ \<Rightarrow> None) =
     Some ([(''echo hi'', ''/srv'')], shellProcess server0)"
    by blast
  then show ?thesis
    by (auto split: prod.splits settled.splits)
qed




text \<open>
  C10. In the single-session variant a command that goes to the persistent shell leaves the
  tracked working directory as it was, whatever the command is: \<^verbatim>\<open>executeCommandInShell\<close> does
  not change it, and neither does the branch of the handler that calls it. The branch that
  makes a one-shot \<^verbatim>\<open>exec\<close> sets the tracked directory to what the tracker computes.
\<close>

theorem persistent_path_keeps_directory:
  "currentWorkingDirectory (snd (executeCommandInShell h w c sv)) = currentWorkingDirectory sv \<and>
   (use_persistent_shell x \<noteq> Some True \<longrightarrow>
      (\<exists>r sv'. execute_command_single h w (Some x) sv = (Fulfilled r, sv') \<and>
         currentWorkingDirectory sv' = currentWorkingDirectory sv \<and>
         exec_calls sv' = exec_calls sv)) \<and>
   (use_persistent_shell x = Some True \<and> command x = Some cmd \<longrightarrow>
      (\<exists>r sv'. execute_command_single h w (Some x) sv = (Fulfilled r, sv') \<and>
         currentWorkingDirectory sv' =
           updateWorkingDirectory h (currentWorkingDirectory sv) cmd \<and>
         shellProcess sv' = shellProcess sv))"
proof -
  have k1: "currentWorkingDirectory (snd (executeCommandInShell h w c sv)) = currentWorkingDirectory sv"
    and k2: "exec_calls (snd (executeCommandInShell h w c sv)) = exec_calls sv" for c
    by (simp_all add: executeCommandInShell_def Let_def initializeShell_def)
  have 2: "use_persistent_shell x \<noteq> Some True \<longrightarrow>
      (\<exists>r sv'. execute_command_single h w (Some x) sv = (Fulfilled r, sv') \<and>
         currentWorkingDirectory sv' = currentWorkingDirectory sv \<and>
         exec_calls sv' = exec_calls sv)"
  proof
    assume f: "use_persistent_shell x \<noteq> Some True"
    from executeCommandInShell_Fulfilled [of h w "command x" sv]
    obtain r sv1 where e: "executeCommandInShell h w (command x) sv = (Fulfilled r, sv1)" by blast
    with k1 [of "command x"] k2 [of "command x"]
    have "currentWorkingDirectory sv1 = currentWorkingDirectory sv" "exec_calls sv1 = exec_calls sv"
      by simp_all
    with f e show "\<exists>r sv'. execute_command_single h w (Some x) sv = (Fulfilled r, sv') \<and>
         currentWorkingDirectory sv' = currentWorkingDirectory sv \<and>
         exec_calls sv' = exec_calls sv"
      by (simp add: execute_command_single_def)
  qed
  have 3: "use_persistent_shell x = Some True \<and> command x = Some cmd \<longrightarrow>
      (\<exists>r sv'. execute_command_single h w (Some x) sv = (Fulfilled r, sv') \<and>
         currentWorkingDirectory sv' =
           updateWorkingDirectory h (currentWorkingDirectory sv) cmd \<and>
         shellProcess sv' = shellProcess sv)"
    by (simp add: execute_command_single_def Let_def)
  from k1 [of c] 2 3 show ?thesis by blast
qed

theorem persistent_path_keeps_directory_witness:
  "use_persistent_shell (cd_args None) \<noteq> Some True \<and>
   currentWorkingDirectory
     (snd (execute_command_single host0 whole_world (Some (cd_args None)) server0)) = ''/srv'' \<and>
   use_persistent_shell (cd_args (Some True)) = Some True \<and>
   command (cd_args (Some True)) = Some ''cd sub'' \<and>
   currentWorkingDirectory
     (snd (execute_command_single host0 whole_world (Some (cd_args (Some True))) server0)) =
     ''/srv/sub''"
proof -
  have a: "use_persistent_shell (cd_args None) \<noteq> Some True"
    and b: "use_persistent_shell (cd_args (Some True)) = Some True"
           "command (cd_args (Some True)) = Some ''cd sub''"
    by (simp_all add: cd_args_def)
  have u: "updateWorkingDirectory host0 (currentWorkingDirectory server0) ''cd sub'' = ''/srv/sub''"
    "currentWorkingDirectory server0 = ''/srv''"
    by code_simp+
  from persistent_path_keeps_directory
         [where x = "cd_args None" and h = host0 and w = whole_world and sv = server0] a
  obtain r sv' where 1: "execute_command_single host0 whole_world (Some (cd_args None)) server0 = (Fulfilled r, sv')"
    "currentWorkingDirectory sv' = currentWorkingDirectory server0"
    by blast
  from persistent_path_keeps_directory
         [where x = "cd_args (Some True)" and h = host0 and w = whole_world and sv = server0
            and cmd = "''cd sub''"] b
  obtain r2 sv2 where 2:
    "execute_command_single host0 whole_world (Some (cd_args (Some True))) server0 = (Fulfilled r2, sv2)"
    "currentWorkingDirectory sv2 = updateWorkingDirectory host0 (currentWorkingDirectory server0) ''cd sub''"
    by blast
  from a b 1 2 u show ?thesis by simp
qed

end
